theory Spec2Isabelle
  imports Complex_Main "HOL-Library.AList"
begin

section \<open>The policy analysis pipeline of ClauseGuard (utils/llm)\<close>

text \<open>
  The functions embedded here are \<^verbatim>\<open>analyzeInChunks\<close>, \<^verbatim>\<open>mergeChunkResults\<close>,
  \<^verbatim>\<open>callLLM\<close>, \<^verbatim>\<open>parseAnalysisResponse\<close> and \<^verbatim>\<open>extractJSON\<close> of
  \<^verbatim>\<open>src/utils/browser.js\<close>, with the constant \<^verbatim>\<open>MAX_TEXT_LENGTH\<close> of
  \<^verbatim>\<open>utils/constants.js\<close>.

  A JavaScript string is a sequence of UTF-16 code units and \<^verbatim>\<open>length\<close>,
  \<^verbatim>\<open>slice\<close>, \<^verbatim>\<open>indexOf\<close> count code units. A \<^typ>\<open>string\<close> models it with one
  \<^typ>\<open>char\<close> for each code unit, which covers the code units below 256.
\<close>

subsection \<open>JavaScript values\<close>

text \<open>
  The replies of the language model are untyped JSON, and the code tests their shape at run time
  (\<^verbatim>\<open>typeof\<close>, \<^verbatim>\<open>Array.isArray\<close>, truthiness, optional chaining), so the embedding
  keeps them untyped. A number is a rational or an infinity (JSON has no NaN). An object
  is an association list in which the first binding of a key is the property.
\<close>

datatype jsnum = Finite rat | PosInfinity | NegInfinity

datatype jsval =
    JUndefined
  | JNull
  | JBool bool
  | JNum jsnum
  | JStr string
  | JArr "jsval list"
  | JObj "(string \<times> jsval) list"

text \<open>
  What a function throws. \<open>Error v\<close> is \<^verbatim>\<open>new Error(v)\<close>: its message is \<open>v\<close>
  converted to a string, which is \<open>s\<close> itself for \<open>v = JStr s\<close>.
\<close>

datatype js_error = TypeError | SyntaxError | Error jsval

text \<open>
  The built-ins of the language that the embedding does not define are parameters:
  \<^verbatim>\<open>JSON.parse\<close> (\<open>None\<close> when it throws a SyntaxError) and the comparison
  \<^verbatim>\<open>v > n\<close> for a \<open>v\<close> that is a string, an array or an object, which converts
  \<open>v\<close> to a number first (\<open>None\<close> when the conversion throws a TypeError).
\<close>

record builtins =
  JSON_parse :: "string \<Rightarrow> jsval option"
  convert_gt :: "jsval \<Rightarrow> rat \<Rightarrow> bool option"

fun truthy :: "jsval \<Rightarrow> bool" where
  "truthy JUndefined = False"
| "truthy JNull = False"
| "truthy (JBool b) = b"
| "truthy (JNum n) = (n \<noteq> Finite 0)"
| "truthy (JStr s) = (s \<noteq> [])"
| "truthy (JArr xs) = True"
| "truthy (JObj kvs) = True"

fun nullish :: "jsval \<Rightarrow> bool" where
  "nullish JUndefined = True"
| "nullish JNull = True"
| "nullish v = False"

text \<open>\<^verbatim>\<open>a || b\<close>\<close>

definition or_else :: "jsval \<Rightarrow> jsval \<Rightarrow> jsval" where
  "or_else a b = (if truthy a then a else b)"

definition lookup :: "(string \<times> jsval) list \<Rightarrow> string \<Rightarrow> jsval" where
  "lookup kvs k = (case map_of kvs k of None \<Rightarrow> JUndefined | Some v \<Rightarrow> v)"

text \<open>
  \<^verbatim>\<open>v.k\<close> for a \<open>v\<close> that is neither null nor undefined, and for the names the code
  reads with a dot (\<^verbatim>\<open>grade\<close>, \<^verbatim>\<open>summary\<close>, \<^verbatim>\<open>dirtyDozen\<close>, \<^verbatim>\<open>highlights\<close>,
  \<^verbatim>\<open>good\<close>, \<^verbatim>\<open>bad\<close>, \<^verbatim>\<open>criticalQuotes\<close>, \<^verbatim>\<open>status\<close>, \<^verbatim>\<open>length\<close>,
  \<^verbatim>\<open>error\<close>, \<^verbatim>\<open>message\<close>, \<^verbatim>\<open>choices\<close>, \<^verbatim>\<open>candidates\<close>, \<^verbatim>\<open>content\<close>,
  \<^verbatim>\<open>parts\<close>, \<^verbatim>\<open>text\<close>): an own property of an object, the length of an array or
  of a string, and undefined otherwise, none of these names being inherited from a
  prototype.
\<close>

fun getprop :: "jsval \<Rightarrow> string \<Rightarrow> jsval" where
  "getprop (JObj kvs) k = lookup kvs k"
| "getprop (JArr xs) k =
     (if k = ''length'' then JNum (Finite (of_nat (length xs))) else JUndefined)"
| "getprop (JStr s) k =
     (if k = ''length'' then JNum (Finite (of_nat (length s))) else JUndefined)"
| "getprop v k = JUndefined"

text \<open>\<^verbatim>\<open>v.k\<close>: reading a property of null or undefined throws.\<close>

definition get :: "jsval \<Rightarrow> string \<Rightarrow> js_error + jsval" where
  "get v k = (if nullish v then Inl TypeError else Inr (getprop v k))"

text \<open>\<^verbatim>\<open>v?.k\<close>\<close>

definition opt_get :: "jsval \<Rightarrow> string \<Rightarrow> jsval" where
  "opt_get v k = (if nullish v then JUndefined else getprop v k)"

text \<open>\<^verbatim>\<open>v?.[0]\<close>\<close>

fun opt_first :: "jsval \<Rightarrow> jsval" where
  "opt_first (JArr xs) = (case xs of [] \<Rightarrow> JUndefined | x # _ \<Rightarrow> x)"
| "opt_first (JStr s) = (case s of [] \<Rightarrow> JUndefined | c # _ \<Rightarrow> JStr [c])"
| "opt_first (JObj kvs) = lookup kvs ''0''"
| "opt_first v = JUndefined"

fun typeof_object :: "jsval \<Rightarrow> bool" where
  "typeof_object JNull = True"
| "typeof_object (JArr xs) = True"
| "typeof_object (JObj kvs) = True"
| "typeof_object v = False"

fun isArray :: "jsval \<Rightarrow> bool" where
  "isArray (JArr xs) = True"
| "isArray v = False"

text \<open>
  \<^verbatim>\<open>s.toUpperCase()\<close> on the letters a to z. A code unit outside ASCII is left as it
  is: its upper case is never one of the ASCII letters the code compares the result with.
\<close>

definition upper_char :: "char \<Rightarrow> char" where
  "upper_char c =
     (let n = (of_char c :: nat) in if 97 \<le> n \<and> n \<le> 122 then char_of (n - 32) else c)"

definition toUpperCase :: "string \<Rightarrow> string" where
  "toUpperCase s = map upper_char s"

text \<open>
  \<^verbatim>\<open>v.toUpperCase()\<close>: a string has the method; the property read throws on null and
  undefined, and on every other value the property is not a function, so the call throws.
\<close>

fun call_toUpperCase :: "jsval \<Rightarrow> js_error + jsval" where
  "call_toUpperCase (JStr s) = Inr (JStr (toUpperCase s))"
| "call_toUpperCase v = Inl TypeError"

text \<open>
  \<^verbatim>\<open>v > n\<close>: undefined converts to NaN, null and the booleans to 0 or 1 (so the
  comparison with a bound \<open>n \<ge> 1\<close> is false), a number is compared as it is.
\<close>

fun num_gt :: "jsnum \<Rightarrow> rat \<Rightarrow> bool" where
  "num_gt (Finite r) n = (n < r)"
| "num_gt PosInfinity n = True"
| "num_gt NegInfinity n = False"

fun greater_than :: "builtins \<Rightarrow> jsval \<Rightarrow> rat \<Rightarrow> js_error + bool" where
  "greater_than B JUndefined n = Inr False"
| "greater_than B JNull n = Inr (n < 0)"
| "greater_than B (JBool b) n = Inr (n < (if b then 1 else 0))"
| "greater_than B (JNum x) n = Inr (num_gt x n)"
| "greater_than B v n =
     (case convert_gt B v n of None \<Rightarrow> Inl TypeError | Some b \<Rightarrow> Inr b)"

text \<open>
  \<^verbatim>\<open>xs.indexOf(v)\<close> and \<^verbatim>\<open>xs.includes(v)\<close> on an array \<open>xs\<close> of strings: \<open>v\<close> is
  found where it is the same string, and a \<open>v\<close> that is not a string is not found.
\<close>

fun indexOf :: "jsval list \<Rightarrow> jsval \<Rightarrow> int" where
  "indexOf [] v = -1"
| "indexOf (x # xs) v =
     (if x = v then 0 else (let i = indexOf xs v in if i < 0 then -1 else i + 1))"

definition array_includes :: "jsval list \<Rightarrow> jsval \<Rightarrow> bool" where
  "array_includes xs v = (v \<in> set xs)"

text \<open>The decimal digits of a number, as a template literal prints a status code.\<close>

definition digit_char :: "nat \<Rightarrow> char" where
  "digit_char d = char_of (of_char (CHR ''0'') + d)"

function string_of_nat :: "nat \<Rightarrow> string" where
  "string_of_nat n =
     (if 10 \<le> n then string_of_nat (n div 10) @ [digit_char (n mod 10)]
      else [digit_char n])"
  by pat_completeness auto
termination
  by (relation "measure (\<lambda>n. n)") auto

declare string_of_nat.simps [simp del]

subsection \<open>Chunking of long documents\<close>

definition MAX_TEXT_LENGTH :: nat where
  "MAX_TEXT_LENGTH = 50000"

text \<open>\<^verbatim>\<open>const chunkSize = MAX_TEXT_LENGTH - 5000\<close>\<close>

definition chunkSize :: nat where
  "chunkSize = MAX_TEXT_LENGTH - 5000"

text \<open>
  \<^verbatim>\<open>text.slice(i, j)\<close> for \<open>0 \<le> i \<le> j\<close>: the code units from index \<open>i\<close>
  up to, not including, index \<open>j\<close>, cut at the end of the text.
\<close>

definition slice :: "string \<Rightarrow> nat \<Rightarrow> nat \<Rightarrow> string" where
  "slice t i j = take (j - i) (drop i t)"

text \<open>
  The loop \<^verbatim>\<open>for (let i = 0; i < policyText.length; i += chunkSize)
  chunks.push(policyText.slice(i, i + chunkSize))\<close>, started at index \<open>i\<close>.
\<close>

function chunks_from :: "string \<Rightarrow> nat \<Rightarrow> string list" where
  "chunks_from policyText i =
     (if i < length policyText
      then slice policyText i (i + chunkSize) # chunks_from policyText (i + chunkSize)
      else [])"
  by pat_completeness auto
termination
  by (relation "measure (\<lambda>(t, i). length t - i)")
     (auto simp: chunkSize_def MAX_TEXT_LENGTH_def)

declare chunks_from.simps [simp del]

definition chunks_of :: "string \<Rightarrow> string list" where
  "chunks_of policyText = chunks_from policyText 0"

subsection \<open>The normalizer: \<^verbatim>\<open>extractJSON\<close> and \<^verbatim>\<open>parseAnalysisResponse\<close>\<close>

text \<open>
  The white space of \<^verbatim>\<open>trim\<close> and of \<^verbatim>\<open>\s\<close>, among the code units below 256: tab,
  line feed, vertical tab, form feed, carriage return, space and no-break space.
\<close>

definition is_space :: "char \<Rightarrow> bool" where
  "is_space c = ((of_char c :: nat) \<in> {9, 10, 11, 12, 13, 32, 160})"

definition trim :: "string \<Rightarrow> string" where
  "trim s = rev (dropWhile is_space (rev (dropWhile is_space s)))"

definition startsWith :: "string \<Rightarrow> string \<Rightarrow> bool" where
  "startsWith s p = (take (length p) s = p)"

definition endsWith :: "string \<Rightarrow> string \<Rightarrow> bool" where
  "endsWith s p = (length p \<le> length s \<and> drop (length s - length p) s = p)"

definition fence :: string where
  "fence = [CHR 0x60, CHR 0x60, CHR 0x60]"

text \<open>
  \<^verbatim>\<open>s.replace(/^```(?:json)?\s*/, '')\<close>: an opening fence at the start of \<open>s\<close>, the
  word json after it when it is there, and the white space that follows are removed.
\<close>

definition strip_open_fence :: "string \<Rightarrow> string" where
  "strip_open_fence s =
     (if startsWith s fence
      then (let r = drop 3 s;
                r' = (if startsWith r ''json'' then drop 4 r else r)
            in dropWhile is_space r')
      else s)"

text \<open>
  \<^verbatim>\<open>s.replace(/\s*```$/, '')\<close>: a fence at the very end of \<open>s\<close> is removed together with
  the white space before it.
\<close>

definition strip_close_fence :: "string \<Rightarrow> string" where
  "strip_close_fence s =
     (if endsWith s fence
      then rev (dropWhile is_space (drop 3 (rev s)))
      else s)"

text \<open>\<^verbatim>\<open>s.indexOf(c)\<close> and \<^verbatim>\<open>s.lastIndexOf(c)\<close>, with \<open>None\<close> for \<open>-1\<close>.\<close>

fun index_of :: "string \<Rightarrow> char \<Rightarrow> nat option" where
  "index_of [] c = None"
| "index_of (x # xs) c =
     (if x = c then Some 0 else map_option Suc (index_of xs c))"

definition last_index_of :: "string \<Rightarrow> char \<Rightarrow> nat option" where
  "last_index_of s c = map_option (\<lambda>j. length s - 1 - j) (index_of (rev s) c)"

text \<open>\<^verbatim>\<open>s.substring(a, b)\<close> swaps its arguments when \<open>a > b\<close>.\<close>

definition substring :: "string \<Rightarrow> nat \<Rightarrow> nat \<Rightarrow> string" where
  "substring s a b = slice s (min a b) (max a b)"

text \<open>The text \<^verbatim>\<open>extractJSON\<close> hands to \<^verbatim>\<open>JSON.parse\<close>.\<close>

definition clean_text :: "string \<Rightarrow> string" where
  "clean_text text =
     (let clean = trim text;
          clean = (if startsWith clean fence
                   then strip_close_fence (strip_open_fence clean) else clean)
      in case (index_of clean (CHR ''{''), last_index_of clean (CHR ''}'')) of
           (Some start, Some stop) \<Rightarrow> substring clean start (stop + 1)
         | _ \<Rightarrow> clean)"

definition extractJSON :: "builtins \<Rightarrow> string \<Rightarrow> js_error + jsval" where
  "extractJSON B text =
     (case JSON_parse B (clean_text text) of
        None \<Rightarrow> Inl SyntaxError
      | Some v \<Rightarrow> Inr v)"

definition validGrades :: "jsval list" where
  "validGrades = [JStr ''A'', JStr ''B'', JStr ''C'', JStr ''D'', JStr ''F'']"

text \<open>
  \<^verbatim>\<open>parsed.grade = v\<close>. The file is an ES module, hence strict code: the write throws
  a TypeError when \<open>parsed\<close> is a number, a boolean or a string (and on null and
  undefined). On an object or an array it stores \<open>v\<close>.
\<close>

fun writable :: "jsval \<Rightarrow> bool" where
  "writable (JObj kvs) = True"
| "writable (JArr xs) = True"
| "writable v = False"

text \<open>
  The grade \<^verbatim>\<open>parseAnalysisResponse\<close> writes to \<^verbatim>\<open>parsed.grade\<close>:
  \<^verbatim>\<open>if (!parsed.grade || !validGrades.includes(parsed.grade.toUpperCase()))
  parsed.grade = 'C'; else parsed.grade = parsed.grade.toUpperCase();\<close>
\<close>

definition normalized_grade :: "jsval \<Rightarrow> js_error + jsval" where
  "normalized_grade parsed =
     (case get parsed ''grade'' of
        Inl e \<Rightarrow> Inl e
      | Inr g \<Rightarrow>
          if \<not> truthy g then (if writable parsed then Inr (JStr ''C'') else Inl TypeError)
          else (case call_toUpperCase g of
                  Inl e \<Rightarrow> Inl e
                | Inr u \<Rightarrow>
                    if \<not> array_includes validGrades u
                    then (if writable parsed then Inr (JStr ''C'') else Inl TypeError)
                    else (if writable parsed then Inr u else Inl TypeError)))"

definition fallback_summary :: string where
  "fallback_summary = ''Analysis complete. Review the findings below.''"

text \<open>\<^verbatim>\<open>typeof response === 'string' ? extractJSON(response) : response\<close>\<close>

definition parsed_of :: "builtins \<Rightarrow> jsval \<Rightarrow> js_error + jsval" where
  "parsed_of B response =
     (case response of JStr text \<Rightarrow> extractJSON B text | _ \<Rightarrow> Inr response)"

text \<open>
  The body of the \<^verbatim>\<open>try\<close> block. After the write to \<^verbatim>\<open>parsed.grade\<close> the code
  reads that property, which is the value written, and other properties of \<open>parsed\<close>,
  which the write has not changed. Of the reads in the object literal only the comparison
  \<^verbatim>\<open>parsed.summary?.length > 10\<close> can throw.
\<close>

definition parse_try :: "builtins \<Rightarrow> jsval \<Rightarrow> js_error + jsval" where
  "parse_try B response =
     (case parsed_of B response of
        Inl e \<Rightarrow> Inl e
      | Inr parsed \<Rightarrow>
          (case normalized_grade parsed of
             Inl e \<Rightarrow> Inl e
           | Inr grade \<Rightarrow>
               (case greater_than B (opt_get (getprop parsed ''summary'') ''length'') 10 of
                  Inl e \<Rightarrow> Inl e
                | Inr long \<Rightarrow>
                    Inr (JObj
                      [(''grade'', grade),
                       (''summary'',
                          if long then getprop parsed ''summary'' else JStr fallback_summary),
                       (''dirtyDozen'',
                          if typeof_object (getprop parsed ''dirtyDozen'')
                          then getprop parsed ''dirtyDozen'' else JObj []),
                       (''highlights'', JObj
                          [(''good'',
                              if isArray (opt_get (getprop parsed ''highlights'') ''good'')
                              then getprop (getprop parsed ''highlights'') ''good''
                              else JArr []),
                           (''bad'',
                              if isArray (opt_get (getprop parsed ''highlights'') ''bad'')
                              then getprop (getprop parsed ''highlights'') ''bad''
                              else JArr [])]),
                       (''criticalQuotes'',
                          if isArray (getprop parsed ''criticalQuotes'')
                          then getprop parsed ''criticalQuotes'' else JArr [])]))))"

text \<open>The result of the \<^verbatim>\<open>catch\<close> block.\<close>

definition sentinel :: jsval where
  "sentinel = JObj
     [(''grade'', JStr ''?''),
      (''summary'',
         JStr ''Unable to parse the analysis. Check your API settings and try again.''),
      (''dirtyDozen'', JObj []),
      (''highlights'', JObj [(''good'', JArr []), (''bad'', JArr [])]),
      (''criticalQuotes'', JArr [])]"

definition parseAnalysisResponse :: "builtins \<Rightarrow> jsval \<Rightarrow> jsval" where
  "parseAnalysisResponse B response =
     (case parse_try B response of Inl e \<Rightarrow> sentinel | Inr result \<Rightarrow> result)"

subsection \<open>The merge of chunk results: \<^verbatim>\<open>mergeChunkResults\<close>\<close>

definition gradeOrder :: "jsval list" where
  "gradeOrder = [JStr ''A'', JStr ''B'', JStr ''C'', JStr ''D'', JStr ''F'']"

definition statusOrder :: "jsval list" where
  "statusOrder = [JStr ''safe'', JStr ''unknown'', JStr ''warning'', JStr ''danger'']"

text \<open>
  \<^verbatim>\<open>results.reduce((worst, r) => ..., 'A')\<close>, from the accumulator \<open>worst\<close> on.
  Reading \<^verbatim>\<open>r.grade\<close> throws when \<open>r\<close> is null or undefined.
\<close>

fun reduce_grade :: "jsval \<Rightarrow> jsval list \<Rightarrow> js_error + jsval" where
  "reduce_grade worst [] = Inr worst"
| "reduce_grade worst (r # rs) =
     (case get r ''grade'' of
        Inl e \<Rightarrow> Inl e
      | Inr g \<Rightarrow>
          (let currentIdx = indexOf gradeOrder g;
               worstIdx = indexOf gradeOrder worst
           in reduce_grade (if currentIdx > worstIdx then g else worst) rs))"

text \<open>
  \<^verbatim>\<open>Object.entries(v)\<close> for a \<open>v\<close> that is neither null nor undefined (the code passes
  \<^verbatim>\<open>result.dirtyDozen || {}\<close>): the own properties of an object, the elements of an
  array and the code units of a string under their indices, nothing for a number or a
  boolean. JavaScript lists the keys that are array indices before the others; the merge
  below handles each key on its own, so the order of two different keys does not change
  what is stored under either.
\<close>

fun object_entries :: "jsval \<Rightarrow> (string \<times> jsval) list" where
  "object_entries (JObj kvs) = AList.clearjunk kvs"
| "object_entries (JArr xs) = zip (map string_of_nat [0..<length xs]) xs"
| "object_entries (JStr s) =
     zip (map string_of_nat [0..<length s]) (map (\<lambda>c. JStr [c]) s)"
| "object_entries v = []"

text \<open>
  \<^verbatim>\<open>const mergedDirtyDozen = {}\<close> is an ordinary object: it has own properties and a
  prototype, at first \<^verbatim>\<open>Object.prototype\<close>. The loop reads \<^verbatim>\<open>mergedDirtyDozen[key]\<close>
  and assigns to it with keys taken from the replies, so both go through the prototype
  chain. \<^verbatim>\<open>Object.prototype\<close> has the data properties named below, which are
  functions, and the accessor \<^verbatim>\<open>__proto__\<close>, whose getter returns the prototype of the
  object and whose setter replaces it. A prototype that replaces \<^verbatim>\<open>Object.prototype\<close>
  is a finding of a reply, that is an object built by \<^verbatim>\<open>JSON.parse\<close>, with its own
  properties and \<^verbatim>\<open>Object.prototype\<close> behind them.
\<close>

definition object_prototype_names :: "string list" where
  "object_prototype_names =
     [''constructor'', ''__proto__'', ''hasOwnProperty'', ''isPrototypeOf'',
      ''propertyIsEnumerable'', ''toLocaleString'', ''toString'', ''valueOf'',
      ''__defineGetter__'', ''__defineSetter__'', ''__lookupGetter__'',
      ''__lookupSetter__'']"

datatype proto_object = Object_prototype | Replaced "(string \<times> jsval) list"

record merged_object =
  own_properties :: "(string \<times> jsval) list"
  prototype :: proto_object

definition empty_object :: merged_object where
  "empty_object = \<lparr>own_properties = [], prototype = Object_prototype\<rparr>"

text \<open>
  What a read of \<^verbatim>\<open>mergedDirtyDozen[key]\<close> gives: a value of a reply, or an object of
  the runtime (a function of \<^verbatim>\<open>Object.prototype\<close>, or \<^verbatim>\<open>Object.prototype\<close> itself),
  which is truthy and has no property \<^verbatim>\<open>status\<close>.
\<close>

datatype slot = Value jsval | Native

fun slot_truthy :: "slot \<Rightarrow> bool" where
  "slot_truthy (Value v) = truthy v"
| "slot_truthy Native = True"

fun slot_status :: "slot \<Rightarrow> jsval" where
  "slot_status (Value v) = getprop v ''status''"
| "slot_status Native = JUndefined"

text \<open>
  The data property the chain holds for a key before it reaches \<^verbatim>\<open>Object.prototype\<close>:
  an own property, or else an own property of a prototype that has replaced
  \<^verbatim>\<open>Object.prototype\<close>.
\<close>

definition data_property :: "merged_object \<Rightarrow> string \<Rightarrow> jsval option" where
  "data_property merged key =
     (case map_of (own_properties merged) key of
        Some v \<Rightarrow> Some v
      | None \<Rightarrow>
          (case prototype merged of
             Object_prototype \<Rightarrow> None
           | Replaced kvs \<Rightarrow> map_of kvs key))"

text \<open>\<^verbatim>\<open>mergedDirtyDozen[key]\<close>\<close>

definition read_property :: "merged_object \<Rightarrow> string \<Rightarrow> slot" where
  "read_property merged key =
     (case data_property merged key of
        Some v \<Rightarrow> Value v
      | None \<Rightarrow>
          if key = ''__proto__''
          then (case prototype merged of
                  Object_prototype \<Rightarrow> Native
                | Replaced kvs \<Rightarrow> Value (JObj kvs))
          else if List.member object_prototype_names key then Native
          else Value JUndefined)"

text \<open>
  \<^verbatim>\<open>mergedDirtyDozen[key] = value\<close>. Where the chain holds a data property for the key,
  or nothing, the assignment writes an own property. Where the key is \<^verbatim>\<open>__proto__\<close>
  and the chain reaches the accessor, the setter runs: it makes an object the new
  prototype and ignores a value that is not an object. The loop assigns through the
  setter only after \<^verbatim>\<open>statusOrder.indexOf(value.status)\<close> has exceeded another index, so
  when \<^verbatim>\<open>value.status\<close> is one of the four strings and \<open>value\<close> therefore an object
  with that own property; an array or null, which the setter would accept too, does not
  reach it.
\<close>

definition assign_property :: "merged_object \<Rightarrow> string \<Rightarrow> jsval \<Rightarrow> merged_object" where
  "assign_property merged key val =
     (if data_property merged key = None \<and> key = ''__proto__''
      then (case val of
              JObj kvs \<Rightarrow> merged\<lparr>prototype := Replaced kvs\<rparr>
            | _ \<Rightarrow> merged)
      else merged\<lparr>own_properties := AList.update key val (own_properties merged)\<rparr>)"

text \<open>
  The inner \<^verbatim>\<open>forEach(([key, value]) => ...)\<close> over the entries of one result. In
  \<^verbatim>\<open>!existing || statusOrder.indexOf(value.status) > statusOrder.indexOf(existing.status)\<close>
  the read of \<^verbatim>\<open>value.status\<close> throws when \<open>value\<close> is null or undefined;
  \<open>existing\<close> is truthy where \<^verbatim>\<open>existing.status\<close> is read.
\<close>

fun merge_entries ::
  "merged_object \<Rightarrow> (string \<times> jsval) list \<Rightarrow> js_error + merged_object"
where
  "merge_entries merged [] = Inr merged"
| "merge_entries merged ((key, val) # es) =
     (let existing = read_property merged key in
      if \<not> slot_truthy existing then merge_entries (assign_property merged key val) es
      else (case get val ''status'' of
              Inl e \<Rightarrow> Inl e
            | Inr st \<Rightarrow>
                if indexOf statusOrder st > indexOf statusOrder (slot_status existing)
                then merge_entries (assign_property merged key val) es
                else merge_entries merged es))"

text \<open>\<^verbatim>\<open>Object.entries(result.dirtyDozen || {})\<close>\<close>

definition dirtyDozen_entries :: "jsval \<Rightarrow> (string \<times> jsval) list" where
  "dirtyDozen_entries r = object_entries (or_else (getprop r ''dirtyDozen'') (JObj []))"

text \<open>
  The outer \<^verbatim>\<open>results.forEach(result => ...)\<close>. It runs after the reduction of the
  grades has read a property of every result, so no result is null or undefined here.
\<close>

fun merge_dirtyDozen ::
  "merged_object \<Rightarrow> jsval list \<Rightarrow> js_error + merged_object"
where
  "merge_dirtyDozen merged [] = Inr merged"
| "merge_dirtyDozen merged (r # rs) =
     (case merge_entries merged (dirtyDozen_entries r) of
        Inl e \<Rightarrow> Inl e
      | Inr merged' \<Rightarrow> merge_dirtyDozen merged' rs)"

text \<open>
  \<^verbatim>\<open>results.flatMap(f)\<close>: an array returned by \<open>f\<close> contributes its elements, any
  other value contributes itself.
\<close>

fun flat :: "jsval \<Rightarrow> jsval list" where
  "flat (JArr xs) = xs"
| "flat v = [v]"

definition flatMap :: "(jsval \<Rightarrow> jsval) \<Rightarrow> jsval list \<Rightarrow> jsval list" where
  "flatMap f rs = concat (map (\<lambda>r. flat (f r)) rs)"

text \<open>
  \<^verbatim>\<open>[...new Set(xs)]\<close>: the elements in the order of their insertion, an element
  being inserted unless the set holds the same value already. Strings, numbers, booleans,
  null and undefined are the same when they are equal; the objects and arrays at two
  positions of \<open>xs\<close> are two objects (each was built by its own \<^verbatim>\<open>JSON.parse\<close>), and an
  object is the same as itself only.
\<close>

fun is_primitive :: "jsval \<Rightarrow> bool" where
  "is_primitive (JArr xs) = False"
| "is_primitive (JObj kvs) = False"
| "is_primitive v = True"

definition same_value :: "jsval \<Rightarrow> jsval \<Rightarrow> bool" where
  "same_value a b = (is_primitive a \<and> a = b)"

definition set_add :: "jsval list \<Rightarrow> jsval \<Rightarrow> jsval list" where
  "set_add acc x = (if list_ex (\<lambda>y. same_value y x) acc then acc else acc @ [x])"

definition new_Set :: "jsval list \<Rightarrow> jsval list" where
  "new_Set xs = foldl set_add [] xs"

text \<open>
  The three functions mapped over the results: \<^verbatim>\<open>r => r.highlights?.good || []\<close>,
  \<^verbatim>\<open>r => r.highlights?.bad || []\<close> and \<^verbatim>\<open>r => r.criticalQuotes || []\<close>.
\<close>

definition good_of :: "jsval \<Rightarrow> jsval" where
  "good_of r = or_else (opt_get (getprop r ''highlights'') ''good'') (JArr [])"

definition bad_of :: "jsval \<Rightarrow> jsval" where
  "bad_of r = or_else (opt_get (getprop r ''highlights'') ''bad'') (JArr [])"

definition quotes_of :: "jsval \<Rightarrow> jsval" where
  "quotes_of r = or_else (getprop r ''criticalQuotes'') (JArr [])"

text \<open>\<^verbatim>\<open>results[0]\<close>\<close>

definition first_result :: "jsval list \<Rightarrow> jsval" where
  "first_result results = (case results of [] \<Rightarrow> JUndefined | r # _ \<Rightarrow> r)"

text \<open>
  The result. A value of the embedding shows an object by its own properties, and so it
  shows \<^verbatim>\<open>mergedDirtyDozen\<close>; the prototype of that object, which only an entry with
  the key \<^verbatim>\<open>__proto__\<close> replaces, is in the state of the loop above.
\<close>

definition mergeChunkResults :: "jsval list \<Rightarrow> js_error + jsval" where
  "mergeChunkResults results =
     (case reduce_grade (JStr ''A'') results of
        Inl e \<Rightarrow> Inl e
      | Inr worstGrade \<Rightarrow>
          (case merge_dirtyDozen empty_object results of
             Inl e \<Rightarrow> Inl e
           | Inr mergedDirtyDozen \<Rightarrow>
               (let allGood = new_Set (flatMap good_of results);
                    allBad = new_Set (flatMap bad_of results);
                    allQuotes = flatMap quotes_of results
                in Inr (JObj
                     [(''grade'', worstGrade),
                      (''summary'',
                         or_else (opt_get (first_result results) ''summary'')
                           (JStr ''Analysis complete.'')),
                      (''dirtyDozen'', JObj (own_properties mergedDirtyDozen)),
                      (''highlights'', JObj
                         [(''good'', JArr (take 5 allGood)),
                          (''bad'', JArr (take 10 allBad))]),
                      (''criticalQuotes'', JArr (take 5 allQuotes))]))))"

subsection \<open>The HTTP reply: \<^verbatim>\<open>callLLM\<close>\<close>

definition HTTP_ERROR_MESSAGES :: "(nat \<times> string) list" where
  "HTTP_ERROR_MESSAGES =
     [(400, ''Bad request - check your API endpoint and model name''),
      (401, ''Invalid API key - please check your API key in settings''),
      (403, ''Access denied - your API key may not have permission for this model''),
      (404, ''Not found - check your API endpoint URL''),
      (429, ''Rate limit exceeded - please wait a moment and try again''),
      (500, ''Server error - the API service is having issues''),
      (502, ''Bad gateway - the API service is temporarily unavailable''),
      (503, ''Service unavailable - the API service is temporarily down'')]"

text \<open>
  What \<^verbatim>\<open>fetch\<close> resolved to: the status code, and the value \<^verbatim>\<open>response.json()\<close>
  resolves to (\<open>None\<close> when the body is not JSON and the promise rejects).
  \<^verbatim>\<open>response.ok\<close> is true for the status codes 200 to 299.
\<close>

record http_response =
  status :: nat
  json :: "jsval option"

definition ok :: "http_response \<Rightarrow> bool" where
  "ok response = (200 \<le> status response \<and> status response \<le> 299)"

text \<open>
  \<^verbatim>\<open>callLLM\<close> from the resolution of \<^verbatim>\<open>fetch\<close> on. On a response that is not ok,
  \<^verbatim>\<open>response.json().catch(() => ({}))\<close> gives the empty object for a body that is not
  JSON, and the argument of \<^verbatim>\<open>new Error\<close> is the first truthy value of
  \<^verbatim>\<open>errorData.error?.message\<close>, \<^verbatim>\<open>errorData.message\<close>,
  \<^verbatim>\<open>HTTP_ERROR_MESSAGES[response.status]\<close> and the text with the status code.
\<close>

definition callLLM :: "http_response \<Rightarrow> js_error + jsval" where
  "callLLM response =
     (if \<not> ok response then
        (let errorData = (case json response of None \<Rightarrow> JObj [] | Some d \<Rightarrow> d) in
         case get errorData ''error'' of
           Inl e \<Rightarrow> Inl e
         | Inr err \<Rightarrow>
             Inl (Error
               (or_else (opt_get err ''message'')
                 (or_else (getprop errorData ''message'')
                   (case map_of HTTP_ERROR_MESSAGES (status response) of
                      Some m \<Rightarrow> JStr m
                    | None \<Rightarrow>
                        JStr (''Request failed ('' @ string_of_nat (status response)
                              @ '')''))))))
      else
        (case json response of
           None \<Rightarrow> Inl SyntaxError
         | Some data \<Rightarrow>
             (case get data ''choices'' of
                Inl e \<Rightarrow> Inl e
              | Inr choices \<Rightarrow>
                  Inr (or_else
                    (opt_get (opt_get (opt_first choices) ''message'') ''content'')
                    (or_else
                      (opt_get (opt_first (opt_get (opt_get
                         (opt_first (getprop data ''candidates'')) ''content'') ''parts''))
                         ''text'')
                      (JStr []))))))"

subsection \<open>Predicates of the properties\<close>

text \<open>
  Built-ins that throw on every argument: a \<^verbatim>\<open>JSON.parse\<close> that rejects its text is
  what a malformed reply meets, and an input that is an object does not reach it.
\<close>

definition rejecting :: builtins where
  "rejecting = \<lparr>JSON_parse = (\<lambda>text. None), convert_gt = (\<lambda>v n. None)\<rparr>"

text \<open>
  What the object literal of the \<^verbatim>\<open>try\<close> block guarantees of a result: the five
  fields, a grade among A, B, C, D, F, a summary that is the fallback text or has a length
  above 10, a \<^verbatim>\<open>dirtyDozen\<close> of type object, and arrays in the three list fields.
\<close>

definition validated :: "builtins \<Rightarrow> jsval \<Rightarrow> bool" where
  "validated B r =
     (case r of
        JObj kvs \<Rightarrow>
          map fst kvs =
            [''grade'', ''summary'', ''dirtyDozen'', ''highlights'', ''criticalQuotes'']
        \<and> array_includes validGrades (lookup kvs ''grade'')
        \<and> (lookup kvs ''summary'' = JStr fallback_summary
           \<or> greater_than B (opt_get (lookup kvs ''summary'') ''length'') 10 = Inr True)
        \<and> typeof_object (lookup kvs ''dirtyDozen'')
        \<and> (case lookup kvs ''highlights'' of
             JObj hs \<Rightarrow>
               map fst hs = [''good'', ''bad'']
             \<and> isArray (lookup hs ''good'') \<and> isArray (lookup hs ''bad'')
           | _ \<Rightarrow> False)
        \<and> isArray (lookup kvs ''criticalQuotes'')
      | _ \<Rightarrow> False)"

text \<open>
  A well-formed analysis result, in the words of the specification: an object with a
  grade among A, B, C, D, F, a summary string of more than 10 characters, a
  \<^verbatim>\<open>dirtyDozen\<close> that is an object, and arrays for the two highlight lists and the
  critical quotes.
\<close>

definition well_formed :: "jsval \<Rightarrow> bool" where
  "well_formed x =
     (case x of
        JObj kvs \<Rightarrow>
          array_includes validGrades (lookup kvs ''grade'')
        \<and> (case lookup kvs ''summary'' of JStr s \<Rightarrow> 10 < length s | _ \<Rightarrow> False)
        \<and> (case lookup kvs ''dirtyDozen'' of JObj d \<Rightarrow> True | _ \<Rightarrow> False)
        \<and> (case lookup kvs ''highlights'' of
             JObj hs \<Rightarrow> isArray (lookup hs ''good'') \<and> isArray (lookup hs ''bad'')
           | _ \<Rightarrow> False)
        \<and> isArray (lookup kvs ''criticalQuotes'')
      | _ \<Rightarrow> False)"

text \<open>
  The invariant the specification states of a \<^verbatim>\<open>dirtyDozen\<close> value \<open>d\<close>: every
  finding in it has a status among safe, warning, danger and unknown.
\<close>

definition valid_findings :: "jsval \<Rightarrow> bool" where
  "valid_findings d =
     list_all (\<lambda>entry. array_includes statusOrder (opt_get (snd entry) ''status''))
       (object_entries d)"

text \<open>A reply with a finding whose status is none of the four.\<close>

definition bogus_reply :: jsval where
  "bogus_reply = JObj
     [(''grade'', JStr ''A''),
      (''summary'', JStr ''A summary of the policy.''),
      (''dirtyDozen'', JObj
         [(''data_sale'', JObj [(''status'', JStr ''bogus''), (''finding'', JStr ''x'')])])]"

text \<open>A reply whose grade is the number 5.\<close>

definition numeric_grade_reply :: jsval where
  "numeric_grade_reply = JObj
     [(''grade'', JNum (Finite 5)),
      (''summary'', JStr ''A summary of the policy.'')]"

text \<open>A well-formed analysis result.\<close>

definition sample_result :: jsval where
  "sample_result = JObj
     [(''grade'', JStr ''B''),
      (''summary'', JStr ''Fine print is mostly okay here.''),
      (''dirtyDozen'', JObj
         [(''data_sale'', JObj [(''status'', JStr ''safe''), (''finding'', JStr ''ok'')])]),
      (''highlights'', JObj [(''good'', JArr [JStr ''a'']), (''bad'', JArr [])]),
      (''criticalQuotes'', JArr [])]"

text \<open>
  The results on which the merge returns and keeps findings as specified: a result is not
  null or undefined, and each value in its \<^verbatim>\<open>dirtyDozen\<close> is truthy (a finding is an
  object, and every object is) under a key that does not name a property of
  \<^verbatim>\<open>Object.prototype\<close>.
\<close>

definition result_ok :: "jsval \<Rightarrow> bool" where
  "result_ok r =
     (\<not> nullish r
      \<and> list_all (\<lambda>entry. truthy (snd entry)
                       \<and> \<not> List.member object_prototype_names (fst entry))
          (dirtyDozen_entries r))"

text \<open>The index of a grade in the severity order, and of the status of a finding.\<close>

definition grade_index :: "jsval \<Rightarrow> int" where
  "grade_index r = indexOf gradeOrder (getprop r ''grade'')"

definition status_index :: "jsval \<Rightarrow> int" where
  "status_index finding = indexOf statusOrder (getprop finding ''status'')"


text \<open>
  A list with its duplicates removed, each element staying where it first occurs: the
  head is kept and what is the same as the head is removed from the rest.
\<close>

fun first_occurrences :: "jsval list \<Rightarrow> jsval list" where
  "first_occurrences [] = []"
| "first_occurrences (x # xs) =
     x # first_occurrences (filter (\<lambda>y. \<not> same_value x y) xs)"

text \<open>
  The steps of the three loops of the merge where nothing throws: one step of the
  reduction of the grades, one step of the inner loop over the entries, and what that
  step does to the finding stored under one key.
\<close>

definition pick_grade :: "jsval \<Rightarrow> jsval \<Rightarrow> jsval" where
  "pick_grade worst r =
     (if indexOf gradeOrder (getprop r ''grade'') > indexOf gradeOrder worst
      then getprop r ''grade'' else worst)"

definition upd_entry ::
  "(string \<times> jsval) list \<Rightarrow> string \<times> jsval \<Rightarrow> (string \<times> jsval) list"
where
  "upd_entry merged entry =
     (case map_of merged (fst entry) of
        None \<Rightarrow> AList.update (fst entry) (snd entry) merged
      | Some existing \<Rightarrow>
          if status_index (snd entry) > status_index existing
          then AList.update (fst entry) (snd entry) merged else merged)"


text \<open>Results with the grades A and D, and with the good highlights a, b and b, c.\<close>

definition result_A :: jsval where
  "result_A = JObj
     [(''grade'', JStr ''A''),
      (''summary'', JStr ''The first part of the policy.''),
      (''dirtyDozen'', JObj
         [(''data_sale'', JObj [(''status'', JStr ''safe''), (''finding'', JStr ''ok'')])]),
      (''highlights'', JObj [(''good'', JArr [JStr ''a'', JStr ''b'']), (''bad'', JArr [])]),
      (''criticalQuotes'', JArr [])]"

definition result_D :: jsval where
  "result_D = JObj
     [(''grade'', JStr ''D''),
      (''summary'', JStr ''The second part of the policy.''),
      (''dirtyDozen'', JObj
         [(''data_sale'',
             JObj [(''status'', JStr ''danger''), (''finding'', JStr ''sells data'')])]),
      (''highlights'', JObj [(''good'', JArr [JStr ''b'', JStr ''c'']), (''bad'', JArr [])]),
      (''criticalQuotes'', JArr [])]"







text \<open>A reply whose \<^verbatim>\<open>dirtyDozen\<close> is a string.\<close>

definition string_dozen_reply :: jsval where
  "string_dozen_reply = JObj
     [(''grade'', JStr ''A''),
      (''summary'', JStr ''A summary of the policy.''),
      (''dirtyDozen'', JStr ''none'')]"

section \<open>Properties\<close>

subsection \<open>Chunking\<close>

lemma chunkSize_pos: "0 < chunkSize"
  by (simp add: chunkSize_def MAX_TEXT_LENGTH_def)

lemma chunkSize_val: "chunkSize = 45000"
  by (simp add: chunkSize_def MAX_TEXT_LENGTH_def)

lemma concat_chunks_from: "concat (chunks_from t i) = drop i t"
proof (induction t i rule: chunks_from.induct)
  case (1 t i)
  show ?case
  proof (cases "i < length t")
    case True
    have "concat (chunks_from t i) = take chunkSize (drop i t) @ drop (i + chunkSize) t"
      using True 1 by (simp add: chunks_from.simps [of t i] slice_def)
    also have "\<dots> = drop i t"
      by (metis add.commute append_take_drop_id drop_drop)
    finally show ?thesis .
  next
    case False
    then show ?thesis by (simp add: chunks_from.simps [of t i])
  qed
qed

lemma ceil_step:
  fixes n i c :: nat
  assumes "i < n" "0 < c"
  shows "Suc ((n - (i + c) + (c - 1)) div c) = (n - i + (c - 1)) div c"
proof (cases "i + c \<le> n")
  case True
  then have e: "n - i + (c - 1) = (n - (i + c) + (c - 1)) + c" by arith
  have "(n - (i + c) + (c - 1) + c) div c = Suc ((n - (i + c) + (c - 1)) div c)"
    using assms(2) by (simp only: div_add_self2)
  then show ?thesis by (simp only: e)
next
  case False
  then have a: "n - (i + c) = 0" by arith
  from False assms have b: "c * 1 \<le> n - i + (c - 1)" "n - i + (c - 1) < c * Suc 1"
    by simp_all
  have d: "(n - i + (c - 1)) div c = 1"
    using b by (rule div_nat_eqI)
  have "(c - 1) div c = 0" using assms(2) by simp
  then show ?thesis by (simp only: a d) simp
qed

lemma length_chunks_from:
  "length (chunks_from t i) = (length t - i + (chunkSize - 1)) div chunkSize"
proof (induction t i rule: chunks_from.induct)
  case (1 t i)
  show ?case
  proof (cases "i < length t")
    case True
    have "length (chunks_from t i) =
          Suc ((length t - (i + chunkSize) + (chunkSize - 1)) div chunkSize)"
      using True 1 by (simp add: chunks_from.simps [of t i])
    also have "\<dots> = (length t - i + (chunkSize - 1)) div chunkSize"
      using True chunkSize_pos by (rule ceil_step)
    finally show ?thesis .
  next
    case False
    then show ?thesis using chunkSize_pos by (simp add: chunks_from.simps [of t i])
  qed
qed

lemma nth_chunks_from:
  "k < length (chunks_from t i) \<Longrightarrow>
   chunks_from t i ! k = slice t (i + k * chunkSize) (i + k * chunkSize + chunkSize)"
proof (induction t i arbitrary: k rule: chunks_from.induct)
  case (1 t i)
  show ?case
  proof (cases "i < length t")
    case True
    show ?thesis
    proof (cases k)
      case 0
      then show ?thesis using True by (simp add: chunks_from.simps [of t i])
    next
      case (Suc j)
      with True 1 show ?thesis
        by (simp add: chunks_from.simps [of t i] add.assoc add.left_commute)
    qed
  next
    case False
    with 1 show ?thesis by (simp add: chunks_from.simps [of t i])
  qed
qed

lemma chunk_bounds:
  "c \<in> set (chunks_from t i) \<Longrightarrow> 0 < length c \<and> length c \<le> chunkSize"
proof (induction t i rule: chunks_from.induct)
  case (1 t i)
  show ?case
  proof (cases "i < length t")
    case True
    with 1 show ?thesis
      using chunkSize_pos by (auto simp add: chunks_from.simps [of t i] slice_def)
  next
    case False
    with 1 show ?thesis by (simp add: chunks_from.simps [of t i])
  qed
qed

lemma chunk_sizes_120000:
  assumes "length t = 120000"
  shows "map length (chunks_of t) = [45000, 45000, 30000]"
  using assms
  by (simp add: chunks_of_def chunkSize_val slice_def
      chunks_from.simps [of t 0] chunks_from.simps [of t 45000]
      chunks_from.simps [of t 90000] chunks_from.simps [of t 135000])

text \<open>
  Claim C2. For every text longer than the threshold 50000, the chunks of
  \<^verbatim>\<open>analyzeInChunks\<close> concatenate to the text; there are \<open>ceil(length / 45000)\<close> of
  them; chunk \<open>k\<close> is the slice of the text from index \<open>45000 k\<close> to \<open>45000 (k + 1)\<close>,
  so the chunks are contiguous, do not overlap and are in the order of the text; no chunk
  is empty and none is longer than 45000; a text of length 120000 gives three chunks of
  lengths 45000, 45000 and 30000.
\<close>

theorem chunks_partition_text:
  assumes "MAX_TEXT_LENGTH < length policyText"
  shows "concat (chunks_of policyText) = policyText
       \<and> length (chunks_of policyText) = (length policyText + 44999) div 45000
       \<and> (\<forall>k < length (chunks_of policyText).
            chunks_of policyText ! k = take 45000 (drop (45000 * k) policyText)
          \<and> 0 < length (chunks_of policyText ! k)
          \<and> length (chunks_of policyText ! k) \<le> 45000)
       \<and> (length policyText = 120000 \<longrightarrow>
            map length (chunks_of policyText) = [45000, 45000, 30000])"
proof (intro conjI allI impI)
  show "concat (chunks_of policyText) = policyText"
    by (simp add: chunks_of_def concat_chunks_from)
  show "length (chunks_of policyText) = (length policyText + 44999) div 45000"
    by (simp add: chunks_of_def length_chunks_from chunkSize_val)
  show "map length (chunks_of policyText) = [45000, 45000, 30000]"
    if "length policyText = 120000"
    using that by (rule chunk_sizes_120000)
next
  fix k
  assume k: "k < length (chunks_of policyText)"
  then show "chunks_of policyText ! k = take 45000 (drop (45000 * k) policyText)"
    by (simp add: chunks_of_def nth_chunks_from slice_def chunkSize_val mult.commute)
  from k have "chunks_of policyText ! k \<in> set (chunks_of policyText)"
    by simp
  then have b: "0 < length (chunks_of policyText ! k)
              \<and> length (chunks_of policyText ! k) \<le> chunkSize"
    unfolding chunks_of_def by (rule chunk_bounds)
  from b show "0 < length (chunks_of policyText ! k)" by simp
  from b show "length (chunks_of policyText ! k) \<le> 45000" by (simp add: chunkSize_val)
qed

theorem chunks_partition_text_witness:
  "MAX_TEXT_LENGTH < length (replicate 120000 (CHR ''a''))
   \<and> concat (chunks_of (replicate 120000 (CHR ''a''))) = replicate 120000 (CHR ''a'')
   \<and> length (chunks_of (replicate 120000 (CHR ''a''))) = 3
   \<and> map length (chunks_of (replicate 120000 (CHR ''a''))) = [45000, 45000, 30000]"
proof -
  have h: "MAX_TEXT_LENGTH < length (replicate 120000 (CHR ''a''))"
    by (simp add: MAX_TEXT_LENGTH_def)
  show ?thesis
    using h chunks_partition_text [OF h] by simp
qed

subsection \<open>The normalizer\<close>

lemma toUpperCase_valid:
  "JStr s \<in> set validGrades \<Longrightarrow> toUpperCase s = s"
  by (auto simp: validGrades_def toUpperCase_def upper_char_def)

lemma normalized_grade_Inr:
  assumes "normalized_grade p = Inr g"
  shows "g \<in> set validGrades \<and> writable p \<and> \<not> nullish p"
  using assms
  by (auto simp: normalized_grade_def array_includes_def validGrades_def get_def
      split: sum.splits if_splits)

lemma normalized_grade_fixed:
  assumes "g \<in> set validGrades" "writable p" "getprop p ''grade'' = g"
  shows "normalized_grade p = Inr g"
proof -
  from assms(1) obtain s where s: "g = JStr s" "s \<noteq> []"
    by (auto simp: validGrades_def)
  from assms(2) have n: "\<not> nullish p" by (cases p) auto
  show ?thesis
    using assms s n toUpperCase_valid [of s]
    by (simp add: normalized_grade_def get_def array_includes_def)
qed

lemma parse_try_Inr:
  assumes "parse_try B x = Inr y"
  obtains parsed g long where
    "parsed_of B x = Inr parsed" "normalized_grade parsed = Inr g"
    "greater_than B (opt_get (getprop parsed ''summary'') ''length'') 10 = Inr long"
    "y = JObj
      [(''grade'', g),
       (''summary'', if long then getprop parsed ''summary'' else JStr fallback_summary),
       (''dirtyDozen'',
          if typeof_object (getprop parsed ''dirtyDozen'')
          then getprop parsed ''dirtyDozen'' else JObj []),
       (''highlights'', JObj
          [(''good'',
              if isArray (opt_get (getprop parsed ''highlights'') ''good'')
              then getprop (getprop parsed ''highlights'') ''good'' else JArr []),
           (''bad'',
              if isArray (opt_get (getprop parsed ''highlights'') ''bad'')
              then getprop (getprop parsed ''highlights'') ''bad'' else JArr [])]),
       (''criticalQuotes'',
          if isArray (getprop parsed ''criticalQuotes'')
          then getprop parsed ''criticalQuotes'' else JArr [])]"
  using assms by (auto simp: parse_try_def split: sum.splits)

lemma fallback_long:
  "greater_than B (opt_get (JStr fallback_summary) ''length'') 10 = Inr True"
  by (simp add: opt_get_def fallback_summary_def)

lemma isArray_opt_get: "isArray (opt_get v k) \<Longrightarrow> isArray (getprop v k)"
  by (auto simp: opt_get_def split: if_splits)

lemma parse_try_validated:
  assumes "parse_try B x = Inr y"
  shows "validated B y"
proof -
  from assms obtain parsed g long where p:
    "normalized_grade parsed = Inr g"
    "greater_than B (opt_get (getprop parsed ''summary'') ''length'') 10 = Inr long"
    and y: "y = JObj
      [(''grade'', g),
       (''summary'', if long then getprop parsed ''summary'' else JStr fallback_summary),
       (''dirtyDozen'',
          if typeof_object (getprop parsed ''dirtyDozen'')
          then getprop parsed ''dirtyDozen'' else JObj []),
       (''highlights'', JObj
          [(''good'',
              if isArray (opt_get (getprop parsed ''highlights'') ''good'')
              then getprop (getprop parsed ''highlights'') ''good'' else JArr []),
           (''bad'',
              if isArray (opt_get (getprop parsed ''highlights'') ''bad'')
              then getprop (getprop parsed ''highlights'') ''bad'' else JArr [])]),
       (''criticalQuotes'',
          if isArray (getprop parsed ''criticalQuotes'')
          then getprop parsed ''criticalQuotes'' else JArr [])]"
    by (rule parse_try_Inr)
  from p(1) have g: "g \<in> set validGrades" by (simp add: normalized_grade_Inr)
  show ?thesis
    using g p(2) unfolding y
    by (auto simp: validated_def lookup_def array_includes_def dest: isArray_opt_get)
qed

lemma parse_try_idem:
  assumes "parse_try B x = Inr y"
  shows "parse_try B y = Inr y"
proof -
  from assms obtain parsed g long where p:
    "normalized_grade parsed = Inr g"
    "greater_than B (opt_get (getprop parsed ''summary'') ''length'') 10 = Inr long"
    and y: "y = JObj
      [(''grade'', g),
       (''summary'', if long then getprop parsed ''summary'' else JStr fallback_summary),
       (''dirtyDozen'',
          if typeof_object (getprop parsed ''dirtyDozen'')
          then getprop parsed ''dirtyDozen'' else JObj []),
       (''highlights'', JObj
          [(''good'',
              if isArray (opt_get (getprop parsed ''highlights'') ''good'')
              then getprop (getprop parsed ''highlights'') ''good'' else JArr []),
           (''bad'',
              if isArray (opt_get (getprop parsed ''highlights'') ''bad'')
              then getprop (getprop parsed ''highlights'') ''bad'' else JArr [])]),
       (''criticalQuotes'',
          if isArray (getprop parsed ''criticalQuotes'')
          then getprop parsed ''criticalQuotes'' else JArr [])]"
    by (rule parse_try_Inr)
  define S where "S = (if long then getprop parsed ''summary'' else JStr fallback_summary)"
  define D where "D = (if typeof_object (getprop parsed ''dirtyDozen'')
          then getprop parsed ''dirtyDozen'' else JObj [])"
  define G where "G = (if isArray (opt_get (getprop parsed ''highlights'') ''good'')
              then getprop (getprop parsed ''highlights'') ''good'' else JArr [])"
  define H where "H = (if isArray (opt_get (getprop parsed ''highlights'') ''bad'')
              then getprop (getprop parsed ''highlights'') ''bad'' else JArr [])"
  define Q where "Q = (if isArray (getprop parsed ''criticalQuotes'')
          then getprop parsed ''criticalQuotes'' else JArr [])"
  have y': "y = JObj [(''grade'', g), (''summary'', S), (''dirtyDozen'', D),
       (''highlights'', JObj [(''good'', G), (''bad'', H)]), (''criticalQuotes'', Q)]"
    unfolding y S_def D_def G_def H_def Q_def ..
  have f: "getprop y ''grade'' = g" "getprop y ''summary'' = S" "getprop y ''dirtyDozen'' = D"
    "getprop y ''highlights'' = JObj [(''good'', G), (''bad'', H)]"
    "getprop y ''criticalQuotes'' = Q"
    by (simp_all add: y' lookup_def)
  from p(1) have g: "g \<in> set validGrades" by (simp add: normalized_grade_Inr)
  have ng: "normalized_grade y = Inr g"
    by (rule normalized_grade_fixed [OF g]) (simp_all add: y' lookup_def)
  have po: "parsed_of B y = Inr y" by (simp add: y' parsed_of_def)
  have lg: "greater_than B (opt_get S ''length'') 10 = Inr True"
    using p(2) fallback_long [of B] by (cases long) (simp_all add: S_def)
  have D: "typeof_object D" by (simp add: D_def)
  have G: "isArray G" "opt_get (JObj [(''good'', G), (''bad'', H)]) ''good'' = G"
    "getprop (JObj [(''good'', G), (''bad'', H)]) ''good'' = G"
    by (auto simp: G_def opt_get_def lookup_def dest: isArray_opt_get)
  have H: "isArray H" "opt_get (JObj [(''good'', G), (''bad'', H)]) ''bad'' = H"
    "getprop (JObj [(''good'', G), (''bad'', H)]) ''bad'' = H"
    by (auto simp: H_def opt_get_def lookup_def dest: isArray_opt_get)
  have Q: "isArray Q" by (simp add: Q_def)
  have "parse_try B y = Inr (JObj [(''grade'', g), (''summary'', S), (''dirtyDozen'', D),
       (''highlights'', JObj [(''good'', G), (''bad'', H)]), (''criticalQuotes'', Q)])"
    by (simp only: parse_try_def po ng f sum.case lg G H D Q if_True)
  then show ?thesis by (simp only: y')
qed

lemma clean_text_examples:
  "clean_text ''not json at all'' = ''not json at all''"
  "clean_text '''' = ''''"
  "clean_text ''```not{closed'' = ''not{closed''"
  by (simp_all add: clean_text_def trim_def is_space_def startsWith_def endsWith_def fence_def
      last_index_of_def strip_open_fence_def strip_close_fence_def)

lemma parse_failure: "parse_try B response = Inl e \<Longrightarrow> parseAnalysisResponse B response = sentinel"
  by (simp add: parseAnalysisResponse_def)

lemma parse_success: "parse_try B response = Inr y \<Longrightarrow> parseAnalysisResponse B response = y"
  by (simp add: parseAnalysisResponse_def)

lemma parse_try_rejected:
  "JSON_parse B (clean_text text) = None \<Longrightarrow> parse_try B (JStr text) = Inl SyntaxError"
  by (simp add: parse_try_def parsed_of_def extractJSON_def)

lemma parse_try_not_writable:
  assumes "parsed_of B response = Inr parsed" "\<not> writable parsed"
  shows "parse_try B response = Inl TypeError"
proof -
  have "normalized_grade parsed = Inl TypeError"
    using assms(2)
    by (cases parsed) (simp_all add: normalized_grade_def get_def)
  then show ?thesis using assms(1) by (simp add: parse_try_def)
qed

text \<open>
  Claim C1. \<^verbatim>\<open>parseAnalysisResponse\<close> is a total function that returns a value on every
  input and every behaviour of the built-ins: what the \<^verbatim>\<open>try\<close> block throws is caught.
  Its result is the sentinel or a fully validated result, never something in between;
  it is the sentinel whenever the \<^verbatim>\<open>try\<close> block throws, in particular when
  \<^verbatim>\<open>JSON.parse\<close> rejects the extracted text (malformed JSON, as for the three texts
  of the specification) and when the input or the parsed value is not an object or array
  (undefined, null, a boolean, a number, a string).
\<close>

theorem parse_sentinel_on_every_failure:
  "(parseAnalysisResponse B response = sentinel
      \<or> validated B (parseAnalysisResponse B response))
   \<and> ((\<exists>e. parse_try B response = Inl e) \<longrightarrow> parseAnalysisResponse B response = sentinel)
   \<and> (JSON_parse B (clean_text text) = None \<longrightarrow>
        parseAnalysisResponse B (JStr text) = sentinel)
   \<and> (parsed_of B response = Inr parsed \<and> \<not> writable parsed \<longrightarrow>
        parseAnalysisResponse B response = sentinel)
   \<and> (JSON_parse B ''not json at all'' = None \<longrightarrow>
        parseAnalysisResponse B (JStr ''not json at all'') = sentinel)
   \<and> (JSON_parse B '''' = None \<longrightarrow> parseAnalysisResponse B (JStr '''') = sentinel)
   \<and> (JSON_parse B ''not{closed'' = None \<longrightarrow>
        parseAnalysisResponse B (JStr ''```not{closed'') = sentinel)"
proof (intro conjI impI)
  show "parseAnalysisResponse B response = sentinel
      \<or> validated B (parseAnalysisResponse B response)"
  proof (cases "parse_try B response")
    case (Inl e)
    then show ?thesis by (simp add: parse_failure)
  next
    case (Inr y)
    then show ?thesis by (simp add: parse_success parse_try_validated)
  qed
  show "parseAnalysisResponse B response = sentinel" if "\<exists>e. parse_try B response = Inl e"
    using that by (auto simp: parse_failure)
  show "parseAnalysisResponse B (JStr text) = sentinel"
    if "JSON_parse B (clean_text text) = None"
    using that by (simp add: parse_failure [OF parse_try_rejected])
  show "parseAnalysisResponse B response = sentinel"
    if "parsed_of B response = Inr parsed \<and> \<not> writable parsed"
    using that by (auto intro: parse_failure parse_try_not_writable)
  show "parseAnalysisResponse B (JStr ''not json at all'') = sentinel"
    if "JSON_parse B ''not json at all'' = None"
    using that by (simp add: parse_failure [OF parse_try_rejected] clean_text_examples)
  show "parseAnalysisResponse B (JStr '''') = sentinel" if "JSON_parse B '''' = None"
    using that by (simp add: parse_failure [OF parse_try_rejected] clean_text_examples)
  show "parseAnalysisResponse B (JStr ''```not{closed'') = sentinel"
    if "JSON_parse B ''not{closed'' = None"
    using that by (simp add: parse_failure [OF parse_try_rejected] clean_text_examples)
qed

theorem parse_sentinel_on_every_failure_witness:
  "JSON_parse rejecting (clean_text ''not json at all'') = None
   \<and> (\<exists>e. parse_try rejecting (JStr ''not json at all'') = Inl e)
   \<and> parseAnalysisResponse rejecting (JStr ''not json at all'') = sentinel
   \<and> parseAnalysisResponse rejecting (JStr '''') = sentinel
   \<and> parseAnalysisResponse rejecting (JStr ''```not{closed'') = sentinel
   \<and> parsed_of rejecting (JNum (Finite 5)) = Inr (JNum (Finite 5))
   \<and> \<not> writable (JNum (Finite 5))
   \<and> parseAnalysisResponse rejecting (JNum (Finite 5)) = sentinel"
proof -
  have r: "JSON_parse rejecting t = None" for t
    by (simp add: rejecting_def)
  have p: "parsed_of rejecting (JNum (Finite 5)) = Inr (JNum (Finite 5))
           \<and> \<not> writable (JNum (Finite 5))"
    by (simp add: parsed_of_def)
  have e: "\<exists>e. parse_try rejecting (JStr ''not json at all'') = Inl e"
    by (simp add: parse_try_rejected r)
  show ?thesis
    using r p e
      parse_sentinel_on_every_failure
        [of rejecting "JStr ''not json at all''" "''not json at all''" JNull]
      parse_sentinel_on_every_failure
        [of rejecting "JNum (Finite 5)" "''''" "JNum (Finite 5)"]
    by simp
qed

text \<open>
  Claim C4 at a reply whose grade is a number: the reply is an object, so it parses, and
  its grade is not one of the five letters; \<^verbatim>\<open>parsed.grade.toUpperCase()\<close> throws on
  the number, and the result is the sentinel with the grade \<open>?\<close>, not a result with
  the grade C.
\<close>

theorem numeric_grade_gives_sentinel:
  "parsed_of B numeric_grade_reply = Inr numeric_grade_reply
   \<and> parseAnalysisResponse B numeric_grade_reply = sentinel
   \<and> getprop (parseAnalysisResponse B numeric_grade_reply) ''grade'' = JStr ''?''"
  by (simp add: parseAnalysisResponse_def parse_try_def parsed_of_def normalized_grade_def
      numeric_grade_reply_def get_def lookup_def sentinel_def)

text \<open>
  Where the \<^verbatim>\<open>try\<close> block returns, the grade is the upper-cased grade of the reply
  when that is a string and one of the five letters, and C otherwise.
\<close>

lemma grade_forced_or_uppercased:
  assumes "parsed_of B response = Inr parsed" "parse_try B response = Inr r"
  shows "getprop r ''grade'' =
     (case getprop parsed ''grade'' of
        JStr s \<Rightarrow>
          if array_includes validGrades (JStr (toUpperCase s))
          then JStr (toUpperCase s) else JStr ''C''
      | _ \<Rightarrow> JStr ''C'')"
proof -
  from assms(2) obtain parsed' g where
    "parsed_of B response = Inr parsed'" "normalized_grade parsed' = Inr g"
    "getprop r ''grade'' = g"
    by (rule parse_try_Inr) (simp add: lookup_def)
  with assms(1) have g: "normalized_grade parsed = Inr g" "getprop r ''grade'' = g"
    by simp_all
  from g(1) show ?thesis
    unfolding g(2)
    by (cases "getprop parsed ''grade''")
       (auto simp: normalized_grade_def get_def array_includes_def validGrades_def
          toUpperCase_def
          split: if_splits sum.splits)
qed

text \<open>
  Every grade that is truthy and not a string takes the path of the number: the call of
  \<^verbatim>\<open>toUpperCase\<close> throws and the result is the sentinel.
\<close>

lemma truthy_non_string_grade_fails:
  assumes "parsed_of B response = Inr parsed"
    and "truthy (getprop parsed ''grade'')"
    and "\<forall>s. getprop parsed ''grade'' \<noteq> JStr s"
  shows "parseAnalysisResponse B response = sentinel"
proof -
  have "call_toUpperCase (getprop parsed ''grade'') = Inl TypeError"
    using assms(3) by (cases "getprop parsed ''grade''") simp_all
  then have "normalized_grade parsed = Inl TypeError"
    using assms(2) by (simp add: normalized_grade_def get_def)
  then have "parse_try B response = Inl TypeError"
    using assms(1) by (simp add: parse_try_def)
  then show ?thesis by (rule parse_failure)
qed

lemma well_formed_parse_try:
  assumes "well_formed x"
  shows "\<exists>y. parse_try B x = Inr y"
proof -
  from assms obtain kvs where x: "x = JObj kvs" by (cases x) (simp_all add: well_formed_def)
  from assms obtain s where s: "lookup kvs ''summary'' = JStr s" "10 < length s"
    unfolding x well_formed_def by (cases "lookup kvs ''summary''") simp_all
  from assms have g: "lookup kvs ''grade'' \<in> set validGrades"
    unfolding x well_formed_def by (simp add: array_includes_def)
  have ng: "normalized_grade x = Inr (lookup kvs ''grade'')"
    by (rule normalized_grade_fixed [OF g]) (simp_all add: x)
  have po: "parsed_of B x = Inr x" by (simp add: x parsed_of_def)
  have lg: "greater_than B (opt_get (getprop x ''summary'') ''length'') 10 = Inr True"
    using s by (simp add: x opt_get_def)
  show ?thesis
    by (simp only: parse_try_def po ng lg sum.case) blast
qed

lemma parse_twice:
  "parseAnalysisResponse B (parseAnalysisResponse B x) =
     (case parse_try B x of
        Inl e \<Rightarrow> parseAnalysisResponse B sentinel
      | Inr y \<Rightarrow> y)"
proof (cases "parse_try B x")
  case (Inl e)
  then show ?thesis by (simp add: parse_failure)
next
  case (Inr y)
  then have a: "parseAnalysisResponse B x = y" by (rule parse_success)
  from Inr have "parse_try B y = Inr y" by (rule parse_try_idem)
  then have b: "parseAnalysisResponse B y = y" by (rule parse_success)
  show ?thesis
    by (simp only: a b Inr sum.case)
qed

text \<open>
  Claim C8. The normalizer is idempotent on well-formed input: for every well-formed
  analysis result \<open>x\<close>, normalizing the normalized \<open>x\<close> gives the normalized \<open>x\<close>.
\<close>

theorem normalize_idempotent_on_well_formed:
  assumes "well_formed x"
  shows "parseAnalysisResponse B (parseAnalysisResponse B x) = parseAnalysisResponse B x"
proof -
  from assms obtain y where y: "parse_try B x = Inr y"
    using well_formed_parse_try by blast
  then have a: "parseAnalysisResponse B x = y" by (rule parse_success)
  have "parseAnalysisResponse B (parseAnalysisResponse B x) = y"
    by (simp only: parse_twice y sum.case)
  then show ?thesis by (simp only: a)
qed

theorem normalize_idempotent_on_well_formed_witness:
  "well_formed sample_result
   \<and> parseAnalysisResponse rejecting (parseAnalysisResponse rejecting sample_result) =
       parseAnalysisResponse rejecting sample_result
   \<and> parseAnalysisResponse rejecting sample_result = sample_result"
proof -
  have w: "well_formed sample_result"
    by (simp add: well_formed_def sample_result_def lookup_def array_includes_def
        validGrades_def)
  have e: "parseAnalysisResponse rejecting sample_result = sample_result"
    by (simp add: parseAnalysisResponse_def parse_try_def parsed_of_def
        normalized_grade_def sample_result_def get_def opt_get_def lookup_def
        toUpperCase_def upper_char_def array_includes_def validGrades_def)
  show ?thesis
    using w e normalize_idempotent_on_well_formed [OF w, of rejecting] by simp
qed

lemma sentinel_renormalized:
  "parseAnalysisResponse B sentinel = JObj
     [(''grade'', JStr ''C''),
      (''summary'',
         JStr ''Unable to parse the analysis. Check your API settings and try again.''),
      (''dirtyDozen'', JObj []),
      (''highlights'', JObj [(''good'', JArr []), (''bad'', JArr [])]),
      (''criticalQuotes'', JArr [])]"
  by (simp add: parseAnalysisResponse_def parse_try_def parsed_of_def sentinel_def
      normalized_grade_def get_def opt_get_def lookup_def toUpperCase_def upper_char_def
      array_includes_def validGrades_def)

text \<open>
  Claim C10. The sentinel is not a fixed point of the normalizer: normalizing it gives
  the sentinel with the grade C in place of the question mark, the other four fields as
  they were; so no second normalization returns the grade of the sentinel.
\<close>

theorem sentinel_renormalizes_to_C:
  "parseAnalysisResponse B sentinel = JObj
     [(''grade'', JStr ''C''),
      (''summary'',
         JStr ''Unable to parse the analysis. Check your API settings and try again.''),
      (''dirtyDozen'', JObj []),
      (''highlights'', JObj [(''good'', JArr []), (''bad'', JArr [])]),
      (''criticalQuotes'', JArr [])]
   \<and> parseAnalysisResponse B sentinel \<noteq> sentinel
   \<and> getprop (parseAnalysisResponse B (parseAnalysisResponse B response)) ''grade''
       \<noteq> JStr ''?''"
proof (intro conjI)
  show "parseAnalysisResponse B sentinel = JObj
     [(''grade'', JStr ''C''),
      (''summary'',
         JStr ''Unable to parse the analysis. Check your API settings and try again.''),
      (''dirtyDozen'', JObj []),
      (''highlights'', JObj [(''good'', JArr []), (''bad'', JArr [])]),
      (''criticalQuotes'', JArr [])]"
    by (rule sentinel_renormalized)
  show "parseAnalysisResponse B sentinel \<noteq> sentinel"
    by (simp add: sentinel_renormalized) (simp add: sentinel_def)
  show "getprop (parseAnalysisResponse B (parseAnalysisResponse B response)) ''grade''
       \<noteq> JStr ''?''"
  proof (cases "parse_try B response")
    case (Inl e)
    then show ?thesis
      by (simp add: parse_twice sentinel_renormalized lookup_def)
  next
    case (Inr y)
    from Inr obtain parsed g where "normalized_grade parsed = Inr g" "getprop y ''grade'' = g"
      by (rule parse_try_Inr) (simp add: lookup_def)
    then have "getprop y ''grade'' \<in> set validGrades"
      by (simp add: normalized_grade_Inr)
    then show ?thesis
      using Inr by (auto simp: parse_twice validGrades_def)
  qed
qed

text \<open>
  Claim C9, as stated, fails: the normalizer keeps a finding whose status is none of the
  four.
\<close>

theorem status_not_validated:
  "\<not> valid_findings (getprop (parseAnalysisResponse rejecting bogus_reply) ''dirtyDozen'')"
  by (simp add: parseAnalysisResponse_def parse_try_def parsed_of_def
      normalized_grade_def bogus_reply_def get_def opt_get_def lookup_def
      toUpperCase_def upper_char_def array_includes_def validGrades_def
      valid_findings_def statusOrder_def AList.delete_eq)

lemma dirtyDozen_on_failure:
  assumes "parse_try B response = Inl e"
  shows "getprop (parseAnalysisResponse B response) ''dirtyDozen'' = JObj []"
  using assms by (simp add: parse_failure sentinel_def lookup_def)

lemma dirtyDozen_on_return:
  assumes "parsed_of B response = Inr parsed" and "parse_try B response = Inr r"
  shows "getprop (parseAnalysisResponse B response) ''dirtyDozen'' =
           (if typeof_object (getprop parsed ''dirtyDozen'')
            then getprop parsed ''dirtyDozen'' else JObj [])"
proof -
  from assms(2) obtain parsed' where "parsed_of B response = Inr parsed'"
    "getprop r ''dirtyDozen'' =
       (if typeof_object (getprop parsed' ''dirtyDozen'')
        then getprop parsed' ''dirtyDozen'' else JObj [])"
    by (rule parse_try_Inr) (simp add: lookup_def)
  with assms(1) have "getprop r ''dirtyDozen'' =
       (if typeof_object (getprop parsed ''dirtyDozen'')
        then getprop parsed ''dirtyDozen'' else JObj [])"
    by simp
  moreover from assms(2) have "parseAnalysisResponse B response = r" by (rule parse_success)
  ultimately show ?thesis by simp
qed

text \<open>
  Claim C9, amended. The normalizer does not look at the statuses. Where the
  \<^verbatim>\<open>try\<close> block returns, the \<^verbatim>\<open>dirtyDozen\<close> of the result is the
  \<^verbatim>\<open>dirtyDozen\<close> of the parsed reply, unchanged, when that has the type object, and
  the empty object when it has not; it is the empty object on every failure. So the
  findings of the result have a status among the four whenever the findings of the parsed
  reply have.
\<close>

theorem dirtyDozen_passed_through:
  "((\<exists>e. parse_try B response = Inl e) \<longrightarrow>
       getprop (parseAnalysisResponse B response) ''dirtyDozen'' = JObj [])
   \<and> (parsed_of B response = Inr parsed \<and> (\<exists>r. parse_try B response = Inr r) \<longrightarrow>
       getprop (parseAnalysisResponse B response) ''dirtyDozen'' =
         (if typeof_object (getprop parsed ''dirtyDozen'')
          then getprop parsed ''dirtyDozen'' else JObj []))
   \<and> (parsed_of B response = Inr parsed \<and> valid_findings (getprop parsed ''dirtyDozen'') \<longrightarrow>
       valid_findings (getprop (parseAnalysisResponse B response) ''dirtyDozen''))"
proof (intro conjI impI)
  show "getprop (parseAnalysisResponse B response) ''dirtyDozen'' = JObj []"
    if "\<exists>e. parse_try B response = Inl e"
    using that by (auto simp: dirtyDozen_on_failure)
  show "getprop (parseAnalysisResponse B response) ''dirtyDozen'' =
         (if typeof_object (getprop parsed ''dirtyDozen'')
          then getprop parsed ''dirtyDozen'' else JObj [])"
    if "parsed_of B response = Inr parsed \<and> (\<exists>r. parse_try B response = Inr r)"
    using that by (auto simp only: dirtyDozen_on_return)
  show "valid_findings (getprop (parseAnalysisResponse B response) ''dirtyDozen'')"
    if h: "parsed_of B response = Inr parsed \<and> valid_findings (getprop parsed ''dirtyDozen'')"
  proof (cases "parse_try B response")
    case (Inl e)
    then show ?thesis by (simp add: dirtyDozen_on_failure valid_findings_def)
  next
    case (Inr r)
    with h show ?thesis
      by (simp add: dirtyDozen_on_return [of B response parsed r] valid_findings_def)
  qed
qed

theorem dirtyDozen_passed_through_witness:
  "parsed_of rejecting sample_result = Inr sample_result
   \<and> (\<exists>r. parse_try rejecting sample_result = Inr r)
   \<and> valid_findings (getprop sample_result ''dirtyDozen'')
   \<and> getprop (parseAnalysisResponse rejecting sample_result) ''dirtyDozen'' =
       JObj [(''data_sale'', JObj [(''status'', JStr ''safe''), (''finding'', JStr ''ok'')])]
   \<and> valid_findings (getprop (parseAnalysisResponse rejecting sample_result) ''dirtyDozen'')
   \<and> parsed_of rejecting bogus_reply = Inr bogus_reply
   \<and> (\<exists>r. parse_try rejecting bogus_reply = Inr r)
   \<and> getprop (parseAnalysisResponse rejecting bogus_reply) ''dirtyDozen'' =
       JObj [(''data_sale'', JObj [(''status'', JStr ''bogus''), (''finding'', JStr ''x'')])]
   \<and> parsed_of rejecting string_dozen_reply = Inr string_dozen_reply
   \<and> (\<exists>r. parse_try rejecting string_dozen_reply = Inr r)
   \<and> getprop (parseAnalysisResponse rejecting string_dozen_reply) ''dirtyDozen'' = JObj []
   \<and> (\<exists>e. parse_try rejecting numeric_grade_reply = Inl e)
   \<and> getprop (parseAnalysisResponse rejecting numeric_grade_reply) ''dirtyDozen'' = JObj []"
proof -
  have p: "parsed_of rejecting sample_result = Inr sample_result"
    "parsed_of rejecting bogus_reply = Inr bogus_reply"
    "parsed_of rejecting string_dozen_reply = Inr string_dozen_reply"
    by (simp_all add: parsed_of_def sample_result_def bogus_reply_def string_dozen_reply_def)
  have r: "\<exists>r. parse_try rejecting sample_result = Inr r"
    "\<exists>r. parse_try rejecting bogus_reply = Inr r"
    "\<exists>r. parse_try rejecting string_dozen_reply = Inr r"
    by (simp_all add: parse_try_def parsed_of_def normalized_grade_def get_def opt_get_def
        lookup_def toUpperCase_def upper_char_def array_includes_def validGrades_def
        sample_result_def bogus_reply_def string_dozen_reply_def)
  have e: "\<exists>e. parse_try rejecting numeric_grade_reply = Inl e"
    by (simp add: parse_try_def parsed_of_def normalized_grade_def get_def lookup_def
        numeric_grade_reply_def)
  have v: "valid_findings (getprop sample_result ''dirtyDozen'')"
    by (simp add: valid_findings_def sample_result_def lookup_def opt_get_def
        array_includes_def statusOrder_def)
  have d: "getprop sample_result ''dirtyDozen'' =
       JObj [(''data_sale'', JObj [(''status'', JStr ''safe''), (''finding'', JStr ''ok'')])]"
    "getprop bogus_reply ''dirtyDozen'' =
       JObj [(''data_sale'', JObj [(''status'', JStr ''bogus''), (''finding'', JStr ''x'')])]"
    "getprop string_dozen_reply ''dirtyDozen'' = JStr ''none''"
    by (simp_all add: sample_result_def bogus_reply_def string_dozen_reply_def lookup_def)
  note t1 = dirtyDozen_passed_through [of rejecting sample_result sample_result]
  note t2 = dirtyDozen_passed_through [of rejecting bogus_reply bogus_reply]
  note t3 = dirtyDozen_passed_through [of rejecting string_dozen_reply string_dozen_reply]
  note t4 = dirtyDozen_passed_through [of rejecting numeric_grade_reply numeric_grade_reply]
  from t1 p(1) r(1) d(1)
  have c1: "getprop (parseAnalysisResponse rejecting sample_result) ''dirtyDozen'' =
       JObj [(''data_sale'', JObj [(''status'', JStr ''safe''), (''finding'', JStr ''ok'')])]"
    by simp
  from t1 p(1) v
  have c1v: "valid_findings (getprop (parseAnalysisResponse rejecting sample_result)
               ''dirtyDozen'')"
    by blast
  from t2 p(2) r(2) d(2)
  have c2: "getprop (parseAnalysisResponse rejecting bogus_reply) ''dirtyDozen'' =
       JObj [(''data_sale'', JObj [(''status'', JStr ''bogus''), (''finding'', JStr ''x'')])]"
    by simp
  from t3 p(3) r(3) d(3)
  have c3: "getprop (parseAnalysisResponse rejecting string_dozen_reply) ''dirtyDozen'' =
       JObj []"
    by simp
  from t4 e
  have c4: "getprop (parseAnalysisResponse rejecting numeric_grade_reply) ''dirtyDozen'' =
       JObj []"
    by blast
  show ?thesis
    by (intro conjI p r e v c1 c1v c2 c3 c4)
qed

subsection \<open>The HTTP reply\<close>

lemma string_of_nat_418: "string_of_nat 418 = ''418''"
  by code_simp

text \<open>
  On a response that is not ok and whose body is not the JSON value null, the error
  carries the first truthy value among the message of the error of the body, the message
  of the body, the entry of the table for the status and the text with the status.
\<close>

lemma error_message_priority:
  assumes "\<not> ok response" "json response \<noteq> Some JNull" "json response \<noteq> Some JUndefined"
  shows "callLLM response =
     Inl (Error
       (let errorData = (case json response of None \<Rightarrow> JObj [] | Some d \<Rightarrow> d) in
        if truthy (opt_get (getprop errorData ''error'') ''message'')
        then opt_get (getprop errorData ''error'') ''message''
        else if truthy (getprop errorData ''message'') then getprop errorData ''message''
        else (case map_of HTTP_ERROR_MESSAGES (status response) of
                Some m \<Rightarrow> JStr m
              | None \<Rightarrow> JStr (''Request failed ('' @ string_of_nat (status response) @ '')''))))"
proof -
  define errorData where "errorData = (case json response of None \<Rightarrow> JObj [] | Some d \<Rightarrow> d)"
  have "\<not> nullish errorData"
    using assms(2,3) by (cases "json response"; cases errorData) (auto simp: errorData_def)
  then have "get errorData ''error'' = Inr (getprop errorData ''error'')"
    by (simp add: get_def)
  then show ?thesis
    using assms(1) unfolding callLLM_def Let_def errorData_def [symmetric]
    by (simp add: or_else_def)
qed

lemma rate_limit_message:
  "callLLM \<lparr>status = 429, json = None\<rparr> =
     Inl (Error (JStr ''Rate limit exceeded - please wait a moment and try again''))"
  by (simp add: callLLM_def ok_def get_def lookup_def opt_get_def or_else_def
      HTTP_ERROR_MESSAGES_def)

lemma teapot_message:
  "callLLM \<lparr>status = 418, json = None\<rparr> = Inl (Error (JStr ''Request failed (418)''))"
  by (simp add: callLLM_def ok_def get_def lookup_def opt_get_def or_else_def
      HTTP_ERROR_MESSAGES_def string_of_nat_418)

text \<open>
  Claim C6 at a response with status 500 whose body is the JSON text \<^verbatim>\<open>null\<close>: the
  body parses, \<^verbatim>\<open>errorData\<close> is null, and the read of \<^verbatim>\<open>errorData.error\<close> throws a
  TypeError in place of the error with the message of the table, which the same status
  gets when its body is not JSON.
\<close>

theorem null_error_body_throws_TypeError:
  "\<not> ok \<lparr>status = 500, json = Some JNull\<rparr>
   \<and> callLLM \<lparr>status = 500, json = Some JNull\<rparr> = Inl TypeError
   \<and> callLLM \<lparr>status = 500, json = None\<rparr> =
       Inl (Error (JStr ''Server error - the API service is having issues''))"
  by (simp add: callLLM_def ok_def get_def lookup_def opt_get_def or_else_def
      HTTP_ERROR_MESSAGES_def)

subsection \<open>The merge\<close>

lemma result_ok_not_nullish: "result_ok r \<Longrightarrow> \<not> nullish r"
  by (simp add: result_ok_def)

lemma reduce_grade_foldl:
  "list_all result_ok rs \<Longrightarrow> reduce_grade w rs = Inr (foldl pick_grade w rs)"
  by (induction rs arbitrary: w)
     (simp_all add: get_def pick_grade_def result_ok_not_nullish)

lemma index_pick_grade:
  "indexOf gradeOrder (pick_grade w r) = max (indexOf gradeOrder w) (grade_index r)"
  by (simp add: pick_grade_def grade_index_def)

lemma index_foldl_pick_grade:
  "indexOf gradeOrder (foldl pick_grade w rs) =
     Max (set (indexOf gradeOrder w # map grade_index rs))"
proof (induction rs arbitrary: w)
  case Nil
  show ?case by simp
next
  case (Cons r rs)
  have "indexOf gradeOrder (foldl pick_grade w (r # rs)) =
        Max (set (max (indexOf gradeOrder w) (grade_index r) # map grade_index rs))"
    by (simp add: Cons index_pick_grade)
  also have "\<dots> = Max (set (indexOf gradeOrder w # map grade_index (r # rs)))"
    by (cases "rs = []") (simp_all add: max.assoc)
  finally show ?case .
qed

lemma foldl_pick_grade_cases:
  "foldl pick_grade w rs = w \<or> (\<exists>r\<in>set rs. foldl pick_grade w rs = getprop r ''grade'')"
proof (induction rs arbitrary: w)
  case Nil
  show ?case by simp
next
  case (Cons r rs)
  from Cons [of "pick_grade w r"] show ?case
    by (auto simp: pick_grade_def split: if_splits)
qed

lemma indexOf_nonneg_iff: "0 \<le> indexOf xs v \<longleftrightarrow> v \<in> set xs"
  by (induction xs) (auto simp: Let_def)

lemma indexOf_A: "indexOf gradeOrder (JStr ''A'') = 0"
  by (simp add: gradeOrder_def)

lemma indexOf_lower: "- 1 \<le> indexOf xs v"
  by (induction xs) (auto simp: Let_def)

lemma status_in_order_object:
  assumes "getprop val ''status'' \<in> set statusOrder"
  shows "\<exists>kvs. val = JObj kvs"
  using assms by (cases val) (auto simp: statusOrder_def)

text \<open>
  The setter of \<^verbatim>\<open>__proto__\<close> is reached with an object only: what the read through
  the accessor gives is truthy, so the assignment follows a comparison that the index of
  \<^verbatim>\<open>value.status\<close> has won, and a value with a status of the order is an object.
\<close>

lemma setter_reached_with_object:
  assumes "data_property merged ''__proto__'' = None"
  shows "slot_truthy (read_property merged ''__proto__'')"
    and "get val ''status'' = Inr st \<Longrightarrow>
         indexOf statusOrder st
           > indexOf statusOrder (slot_status (read_property merged ''__proto__'')) \<Longrightarrow>
         \<exists>kvs. val = JObj kvs"
proof -
  show "slot_truthy (read_property merged ''__proto__'')"
    using assms by (simp add: read_property_def split: proto_object.splits)
  assume st: "get val ''status'' = Inr st"
    and gt: "indexOf statusOrder st
           > indexOf statusOrder (slot_status (read_property merged ''__proto__''))"
  from gt indexOf_lower [of statusOrder "slot_status (read_property merged ''__proto__'')"]
  have "0 \<le> indexOf statusOrder st" by simp
  then have "st \<in> set statusOrder" by (simp add: indexOf_nonneg_iff)
  moreover from st have "st = getprop val ''status''"
    by (simp add: get_def split: if_splits)
  ultimately show "\<exists>kvs. val = JObj kvs"
    by (simp add: status_in_order_object)
qed

lemma result_ok_entries:
  "result_ok r \<Longrightarrow> list_all (\<lambda>entry. truthy (snd entry)) (dirtyDozen_entries r)"
  by (simp add: result_ok_def list_all_iff)

lemma truthy_not_nullish: "truthy v \<Longrightarrow> \<not> nullish v"
  by (cases v) simp_all

lemma merge_entries_foldl:
  assumes "prototype m = Object_prototype"
    and "\<forall>k v. map_of (own_properties m) k = Some v \<longrightarrow> truthy v"
    and "list_all (\<lambda>entry. truthy (snd entry)
                    \<and> \<not> List.member object_prototype_names (fst entry)) es"
  shows "merge_entries m es =
           Inr (m\<lparr>own_properties := foldl upd_entry (own_properties m) es\<rparr>)
       \<and> (\<forall>k v. map_of (foldl upd_entry (own_properties m) es) k = Some v \<longrightarrow> truthy v)"
  using assms
proof (induction es arbitrary: m)
  case Nil
  then show ?case by simp
next
  case (Cons entry es)
  obtain key val where entry: "entry = (key, val)" by (cases entry)
  from Cons.prems(3) have val: "truthy val"
    and key: "\<not> List.member object_prototype_names key"
    and es: "list_all (\<lambda>entry. truthy (snd entry)
                    \<and> \<not> List.member object_prototype_names (fst entry)) es"
    by (simp_all add: entry)
  from key have np: "key \<noteq> ''__proto__''"
    by (auto simp: object_prototype_names_def)
  define m' where "m' = m\<lparr>own_properties := upd_entry (own_properties m) entry\<rparr>"
  have dp: "data_property m key = map_of (own_properties m) key"
    using Cons.prems(1) by (simp add: data_property_def split: option.splits)
  have as: "assign_property m key val =
              m\<lparr>own_properties := AList.update key val (own_properties m)\<rparr>"
    using np by (simp add: assign_property_def)
  have p': "prototype m' = Object_prototype"
    using Cons.prems(1) by (simp add: m'_def)
  have inv: "\<forall>k v. map_of (own_properties m') k = Some v \<longrightarrow> truthy v"
    using Cons.prems(2) val
    by (auto simp: m'_def upd_entry_def entry update_conv' split: option.splits if_splits)
  have step: "merge_entries m (entry # es) = merge_entries m' es"
  proof (cases "map_of (own_properties m) key")
    case None
    then have "read_property m key = Value JUndefined"
      using key np by (simp add: read_property_def dp)
    with None show ?thesis
      by (simp add: entry as m'_def upd_entry_def)
  next
    case (Some existing)
    with Cons.prems(2) have "truthy existing" by blast
    moreover have "read_property m key = Value existing"
      using Some by (simp add: read_property_def dp)
    moreover have "get val ''status'' = Inr (getprop val ''status'')"
      using val by (simp add: get_def truthy_not_nullish)
    ultimately show ?thesis
      using Some by (simp add: entry as m'_def upd_entry_def status_index_def)
  qed
  from Cons.IH [OF p' inv es] show ?case
    by (simp add: step m'_def)
qed

lemma merge_dirtyDozen_foldl:
  assumes "prototype m = Object_prototype"
    and "\<forall>k v. map_of (own_properties m) k = Some v \<longrightarrow> truthy v"
    and "list_all result_ok rs"
  shows "merge_dirtyDozen m rs =
           Inr (m\<lparr>own_properties :=
                  foldl upd_entry (own_properties m) (concat (map dirtyDozen_entries rs))\<rparr>)"
  using assms
proof (induction rs arbitrary: m)
  case Nil
  then show ?case by simp
next
  case (Cons r rs)
  from Cons.prems(3) have ok: "result_ok r" and rs: "list_all result_ok rs"
    by simp_all
  from ok have r: "list_all (\<lambda>entry. truthy (snd entry)
                    \<and> \<not> List.member object_prototype_names (fst entry)) (dirtyDozen_entries r)"
    by (simp add: result_ok_def)
  define m' where
    "m' = m\<lparr>own_properties := foldl upd_entry (own_properties m) (dirtyDozen_entries r)\<rparr>"
  note me = merge_entries_foldl [OF Cons.prems(1) Cons.prems(2) r]
  from me have step: "merge_entries m (dirtyDozen_entries r) = Inr m'"
    by (simp add: m'_def)
  from me have inv: "\<forall>k v. map_of (own_properties m') k = Some v \<longrightarrow> truthy v"
    by (simp add: m'_def)
  have p': "prototype m' = Object_prototype"
    using Cons.prems(1) by (simp add: m'_def)
  show ?case
    using Cons.IH [OF p' inv rs] by (simp add: step m'_def)
qed

text \<open>
  On such results no entry reaches the accessor \<^verbatim>\<open>__proto__\<close>: the prototype of the
  merged object stays \<^verbatim>\<open>Object.prototype\<close>, and its own properties are all there is
  to read under a key that is not a name of \<^verbatim>\<open>Object.prototype\<close>.
\<close>

lemma merged_prototype_kept:
  assumes "list_all result_ok results"
  shows "\<exists>d. merge_dirtyDozen empty_object results = Inr d
           \<and> prototype d = Object_prototype
           \<and> own_properties d = foldl upd_entry [] (concat (map dirtyDozen_entries results))"
  using merge_dirtyDozen_foldl [of empty_object results] assms
  by (simp add: empty_object_def)





lemma foldl_set_add:
  "foldl set_add acc xs =
     acc @ first_occurrences (filter (\<lambda>x. \<not> list_ex (\<lambda>y. same_value y x) acc) xs)"
proof (induction xs arbitrary: acc)
  case Nil
  show ?case by simp
next
  case (Cons x xs)
  show ?case
  proof (cases "list_ex (\<lambda>y. same_value y x) acc")
    case True
    then have "set_add acc x = acc" by (simp add: set_add_def)
    with True show ?thesis by (simp add: Cons)
  next
    case False
    have "filter (\<lambda>z. \<not> list_ex (\<lambda>y. same_value y z) (acc @ [x])) xs =
          filter (\<lambda>y. \<not> same_value x y)
            (filter (\<lambda>z. \<not> list_ex (\<lambda>y. same_value y z) acc) xs)"
      by (auto simp: list_ex_iff intro: filter_cong)
    moreover from False have "set_add acc x = acc @ [x]" by (simp add: set_add_def)
    ultimately show ?thesis using False by (simp add: Cons)
  qed
qed

lemma new_Set_first_occurrences: "new_Set xs = first_occurrences xs"
  by (simp add: new_Set_def foldl_set_add)

lemma set_first_occurrences: "set (first_occurrences xs) = set xs"
proof (induction xs rule: first_occurrences.induct)
  case 1
  show ?case by simp
next
  case (2 x xs)
  then show ?case by (auto simp: same_value_def)
qed

lemma distinct_first_occurrences:
  "list_all is_primitive xs \<Longrightarrow> distinct (first_occurrences xs)"
proof (induction xs rule: first_occurrences.induct)
  case 1
  show ?case by simp
next
  case (2 x xs)
  then show ?case
    by (auto simp: same_value_def set_first_occurrences list_all_iff)
qed

lemma flatMap_arrays:
  assumes "\<forall>r\<in>set rs. f r = JArr (g r)"
  shows "flatMap f rs = concat (map g rs)"
  using assms by (induction rs) (simp_all add: flatMap_def)

lemma mergeChunkResults_returns:
  assumes "list_all result_ok results"
  shows "mergeChunkResults results = Inr (JObj
     [(''grade'', foldl pick_grade (JStr ''A'') results),
      (''summary'',
         or_else (opt_get (first_result results) ''summary'') (JStr ''Analysis complete.'')),
      (''dirtyDozen'', JObj (foldl upd_entry [] (concat (map dirtyDozen_entries results)))),
      (''highlights'', JObj
         [(''good'', JArr (take 5 (first_occurrences (flatMap good_of results)))),
          (''bad'', JArr (take 10 (first_occurrences (flatMap bad_of results))))]),
      (''criticalQuotes'', JArr (take 5 (flatMap quotes_of results)))])"
proof -
  have g: "reduce_grade (JStr ''A'') results = Inr (foldl pick_grade (JStr ''A'') results)"
    using assms by (rule reduce_grade_foldl)
  from merged_prototype_kept [OF assms] obtain d
    where d: "merge_dirtyDozen empty_object results = Inr d"
      and o: "own_properties d = foldl upd_entry [] (concat (map dirtyDozen_entries results))"
    by blast
  show ?thesis
    by (simp only: mergeChunkResults_def g d o sum.case Let_def new_Set_first_occurrences)
qed

lemma indexOf_nth:
  "v \<in> set xs \<Longrightarrow> xs ! nat (indexOf xs v) = v"
proof (induction xs)
  case Nil
  then show ?case by simp
next
  case (Cons x xs)
  show ?case
  proof (cases "x = v")
    case True
    then show ?thesis by simp
  next
    case False
    with Cons.prems have v: "v \<in> set xs" by simp
    then have "0 \<le> indexOf xs v" by (simp add: indexOf_nonneg_iff)
    with False Cons.IH [OF v] show ?thesis
      by (simp add: Let_def nat_add_distrib)
  qed
qed

lemma good_of_array:
  "getprop (getprop r ''highlights'') ''good'' = JArr xs \<Longrightarrow> good_of r = JArr xs"
  by (cases "getprop r ''highlights''") (simp_all add: good_of_def opt_get_def or_else_def)

lemma bad_of_array:
  "getprop (getprop r ''highlights'') ''bad'' = JArr xs \<Longrightarrow> bad_of r = JArr xs"
  by (cases "getprop r ''highlights''") (simp_all add: bad_of_def opt_get_def or_else_def)

lemma quotes_of_array:
  "getprop r ''criticalQuotes'' = JArr xs \<Longrightarrow> quotes_of r = JArr xs"
  by (simp add: quotes_of_def or_else_def)

lemma reduce_grade_Inr:
  "reduce_grade w rs = Inr g \<Longrightarrow> g = foldl pick_grade w rs"
proof (induction rs arbitrary: w)
  case Nil
  then show ?case by simp
next
  case (Cons r rs)
  show ?case
  proof (cases "nullish r")
    case True
    with Cons.prems show ?thesis by (simp add: get_def)
  next
    case False
    with Cons.prems have "reduce_grade (pick_grade w r) rs = Inr g"
      by (simp add: get_def pick_grade_def)
    then show ?thesis by (simp add: Cons.IH)
  qed
qed

lemma mergeChunkResults_Inr:
  assumes "mergeChunkResults results = Inr m"
  shows "getprop m ''grade'' = foldl pick_grade (JStr ''A'') results"
    and "getprop (getprop m ''highlights'') ''good'' =
           JArr (take 5 (first_occurrences (flatMap good_of results)))"
    and "getprop (getprop m ''highlights'') ''bad'' =
           JArr (take 10 (first_occurrences (flatMap bad_of results)))"
    and "getprop m ''criticalQuotes'' = JArr (take 5 (flatMap quotes_of results))"
proof -
  from assms obtain g d where g: "reduce_grade (JStr ''A'') results = Inr g"
    and d: "merge_dirtyDozen empty_object results = Inr d"
    by (auto simp: mergeChunkResults_def split: sum.splits)
  from g have g': "g = foldl pick_grade (JStr ''A'') results" by (rule reduce_grade_Inr)
  have m: "m = JObj
     [(''grade'', g),
      (''summary'',
         or_else (opt_get (first_result results) ''summary'') (JStr ''Analysis complete.'')),
      (''dirtyDozen'', JObj (own_properties d)),
      (''highlights'', JObj
         [(''good'', JArr (take 5 (first_occurrences (flatMap good_of results)))),
          (''bad'', JArr (take 10 (first_occurrences (flatMap bad_of results))))]),
      (''criticalQuotes'', JArr (take 5 (flatMap quotes_of results)))]"
    using assms
    by (simp only: mergeChunkResults_def g d sum.case Let_def new_Set_first_occurrences
        sum.inject)
  show "getprop m ''grade'' = foldl pick_grade (JStr ''A'') results"
    by (simp add: m g' lookup_def)
  show "getprop (getprop m ''highlights'') ''good'' =
           JArr (take 5 (first_occurrences (flatMap good_of results)))"
    by (simp add: m lookup_def)
  show "getprop (getprop m ''highlights'') ''bad'' =
           JArr (take 10 (first_occurrences (flatMap bad_of results)))"
    by (simp add: m lookup_def)
  show "getprop m ''criticalQuotes'' = JArr (take 5 (flatMap quotes_of results))"
    by (simp add: m lookup_def)
qed

lemma mergeChunkResults_total:
  "list_all result_ok results \<Longrightarrow> \<exists>m. mergeChunkResults results = Inr m"
  by (simp add: mergeChunkResults_returns)

lemma worst_grade_in_order:
  assumes "results \<noteq> []"
    and "list_all (\<lambda>r. array_includes gradeOrder (getprop r ''grade'')) results"
  shows "foldl pick_grade (JStr ''A'') results =
           gradeOrder ! nat (Max (set (map grade_index results)))"
proof -
  define w where "w = foldl pick_grade (JStr ''A'') results"
  have iw: "indexOf gradeOrder w = Max (set (0 # map grade_index results))"
    unfolding w_def by (simp only: index_foldl_pick_grade indexOf_A)
  have cases: "w = JStr ''A'' \<or> (\<exists>r\<in>set results. w = getprop r ''grade'')"
    unfolding w_def by (rule foldl_pick_grade_cases)
  from assms(2) have nn: "\<forall>i\<in>set (map grade_index results). 0 \<le> i"
    by (auto simp: list_all_iff array_includes_def grade_index_def indexOf_nonneg_iff)
  have ne: "set (map grade_index results) \<noteq> {}" using assms(1) by simp
  have "Max (set (0 # map grade_index results)) = Max (set (map grade_index results))"
  proof -
    have "Max (set (0 # map grade_index results)) =
          max 0 (Max (set (map grade_index results)))"
      using ne by simp
    moreover have "0 \<le> Max (set (map grade_index results))"
      using nn ne by (meson List.finite_set Max_in)
    ultimately show ?thesis by simp
  qed
  with iw have i: "indexOf gradeOrder w = Max (set (map grade_index results))" by simp
  have "w \<in> set gradeOrder"
    using cases assms(2)
    by (auto simp: list_all_iff array_includes_def gradeOrder_def)
  then have "gradeOrder ! nat (indexOf gradeOrder w) = w" by (rule indexOf_nth)
  with i show ?thesis by (simp add: w_def)
qed

lemma worst_grade_none_in_order:
  assumes "list_all (\<lambda>r. \<not> array_includes gradeOrder (getprop r ''grade'')) results"
  shows "foldl pick_grade (JStr ''A'') results = JStr ''A''"
proof (rule ccontr)
  define w where "w = foldl pick_grade (JStr ''A'') results"
  have iw: "indexOf gradeOrder w = Max (set (0 # map grade_index results))"
    unfolding w_def by (simp only: index_foldl_pick_grade indexOf_A)
  have cases: "w = JStr ''A'' \<or> (\<exists>r\<in>set results. w = getprop r ''grade'')"
    unfolding w_def by (rule foldl_pick_grade_cases)
  assume "foldl pick_grade (JStr ''A'') results \<noteq> JStr ''A''"
  then have "w \<noteq> JStr ''A''" by (simp add: w_def)
  with cases obtain r where r: "r \<in> set results" "w = getprop r ''grade''" by blast
  with assms have "w \<notin> set gradeOrder"
    by (simp add: list_all_iff array_includes_def)
  then have "indexOf gradeOrder w < 0"
    using indexOf_nonneg_iff [of gradeOrder w] by simp
  moreover have "0 \<le> Max (set (0 # map grade_index results))"
    by (rule Max_ge) simp_all
  ultimately show False using iw by simp
qed

lemma merge_A_D:
  "mergeChunkResults [result_A, result_D] = Inr (JObj
     [(''grade'', JStr ''D''),
      (''summary'', JStr ''The first part of the policy.''),
      (''dirtyDozen'', JObj
         [(''data_sale'',
             JObj [(''status'', JStr ''danger''), (''finding'', JStr ''sells data'')])]),
      (''highlights'', JObj
         [(''good'', JArr [JStr ''a'', JStr ''b'', JStr ''c'']), (''bad'', JArr [])]),
      (''criticalQuotes'', JArr [])])"
  by code_simp

lemma result_ok_A_D: "list_all result_ok [result_A, result_D]"
  by code_simp

lemma result_ok_sentinel: "list_all result_ok [sentinel, JObj []]"
  by code_simp

text \<open>
  Claim C3. For every non-empty list of results on which the merge returns (it does when
  the results are as \<open>result_ok\<close> says): if the grades are all among A, B, C, D and F
  then the merged grade is the grade of the order whose index is the maximum of the
  indices of the grades of the results; and if no grade is among them (unrecognized, or
  missing) the merged grade is A, the start of the scan.
\<close>

theorem merged_grade_is_worst:
  assumes "results \<noteq> []"
  shows "(list_all result_ok results \<longrightarrow> (\<exists>m. mergeChunkResults results = Inr m))
     \<and> (\<forall>m. mergeChunkResults results = Inr m \<longrightarrow>
          (list_all (\<lambda>r. array_includes gradeOrder (getprop r ''grade'')) results \<longrightarrow>
             getprop m ''grade'' = gradeOrder ! nat (Max (set (map grade_index results))))
        \<and> (list_all (\<lambda>r. \<not> array_includes gradeOrder (getprop r ''grade'')) results \<longrightarrow>
             getprop m ''grade'' = JStr ''A''))"
  using assms
  by (auto simp: mergeChunkResults_total mergeChunkResults_Inr(1)
      worst_grade_in_order worst_grade_none_in_order)

theorem merged_grade_is_worst_witness:
  "[result_A, result_D] \<noteq> []
   \<and> list_all result_ok [result_A, result_D]
   \<and> list_all (\<lambda>r. array_includes gradeOrder (getprop r ''grade'')) [result_A, result_D]
   \<and> (\<exists>m. mergeChunkResults [result_A, result_D] = Inr m
          \<and> getprop m ''grade'' = JStr ''D'')
   \<and> [sentinel, JObj []] \<noteq> []
   \<and> list_all result_ok [sentinel, JObj []]
   \<and> list_all (\<lambda>r. \<not> array_includes gradeOrder (getprop r ''grade'')) [sentinel, JObj []]
   \<and> (\<exists>m. mergeChunkResults [sentinel, JObj []] = Inr m
          \<and> getprop m ''grade'' = JStr ''A'')"
proof -
  have ne: "[result_A, result_D] \<noteq> []" "[sentinel, JObj []] \<noteq> []" by simp_all
  have a: "list_all (\<lambda>r. array_includes gradeOrder (getprop r ''grade''))
             [result_A, result_D]"
    by (simp add: result_A_def result_D_def array_includes_def gradeOrder_def lookup_def)
  have s: "list_all (\<lambda>r. \<not> array_includes gradeOrder (getprop r ''grade''))
             [sentinel, JObj []]"
    by (simp add: sentinel_def array_includes_def gradeOrder_def lookup_def)
  have i: "gradeOrder ! nat (Max (set (map grade_index [result_A, result_D]))) = JStr ''D''"
    by (simp add: grade_index_def result_A_def result_D_def gradeOrder_def lookup_def)
  note t1 = merged_grade_is_worst [OF ne(1)]
  from t1 result_ok_A_D obtain m where m: "mergeChunkResults [result_A, result_D] = Inr m"
    by blast
  with t1 a have "getprop m ''grade'' =
      gradeOrder ! nat (Max (set (map grade_index [result_A, result_D])))"
    by blast
  with m i have c1: "\<exists>m. mergeChunkResults [result_A, result_D] = Inr m
          \<and> getprop m ''grade'' = JStr ''D''"
    by simp
  note t2 = merged_grade_is_worst [OF ne(2)]
  from t2 result_ok_sentinel obtain m' where m': "mergeChunkResults [sentinel, JObj []] = Inr m'"
    by blast
  with t2 s have "getprop m' ''grade'' = JStr ''A''"
    by blast
  with m' have c2: "\<exists>m. mergeChunkResults [sentinel, JObj []] = Inr m
          \<and> getprop m ''grade'' = JStr ''A''"
    by simp
  show ?thesis
    by (intro conjI ne a s c1 c2 result_ok_A_D result_ok_sentinel)
qed




text \<open>
  Claim C7. For every list of results whose highlight lists and quote lists are arrays
  and on which the merge returns (it does when the results are as \<open>result_ok\<close> says),
  the merged good highlights are the first 5 of the concatenation of the good lists of the
  chunks with duplicates removed, each element staying where it first occurs; the merged
  bad highlights are the first 10 by the same rule; and the merged critical quotes are
  the first 5 of the concatenation of the quote lists, in the order of the chunks, with
  nothing removed. The good lists a, b and b, c merge to a, b, c.
\<close>

theorem merged_highlights_and_quotes:
  assumes "\<forall>r\<in>set results. getprop (getprop r ''highlights'') ''good'' = JArr (good r)"
    and "\<forall>r\<in>set results. getprop (getprop r ''highlights'') ''bad'' = JArr (bad r)"
    and "\<forall>r\<in>set results. getprop r ''criticalQuotes'' = JArr (quotes r)"
  shows "(list_all result_ok results \<longrightarrow> (\<exists>m. mergeChunkResults results = Inr m))
     \<and> (\<forall>m. mergeChunkResults results = Inr m \<longrightarrow>
          getprop (getprop m ''highlights'') ''good'' =
            JArr (take 5 (first_occurrences (concat (map good results))))
        \<and> getprop (getprop m ''highlights'') ''bad'' =
            JArr (take 10 (first_occurrences (concat (map bad results))))
        \<and> getprop m ''criticalQuotes'' = JArr (take 5 (concat (map quotes results))))"
proof -
  have g: "flatMap good_of results = concat (map good results)"
    using assms(1) by (intro flatMap_arrays) (simp add: good_of_array)
  have b: "flatMap bad_of results = concat (map bad results)"
    using assms(2) by (intro flatMap_arrays) (simp add: bad_of_array)
  have q: "flatMap quotes_of results = concat (map quotes results)"
    using assms(3) by (intro flatMap_arrays) (simp add: quotes_of_array)
  show ?thesis
    by (auto simp: mergeChunkResults_total mergeChunkResults_Inr g b q)
qed

theorem merged_highlights_and_quotes_witness:
  "list_all result_ok [result_A, result_D]
   \<and> getprop (getprop result_A ''highlights'') ''good'' = JArr [JStr ''a'', JStr ''b'']
   \<and> getprop (getprop result_D ''highlights'') ''good'' = JArr [JStr ''b'', JStr ''c'']
   \<and> (\<exists>m. mergeChunkResults [result_A, result_D] = Inr m
          \<and> getprop (getprop m ''highlights'') ''good'' =
              JArr [JStr ''a'', JStr ''b'', JStr ''c''])"
proof -
  have g: "\<forall>r\<in>set [result_A, result_D].
         getprop (getprop r ''highlights'') ''good'' =
           JArr (flat (getprop (getprop r ''highlights'') ''good''))"
    by (simp add: result_A_def result_D_def lookup_def)
  have b: "\<forall>r\<in>set [result_A, result_D].
         getprop (getprop r ''highlights'') ''bad'' =
           JArr (flat (getprop (getprop r ''highlights'') ''bad''))"
    by (simp add: result_A_def result_D_def lookup_def)
  have q: "\<forall>r\<in>set [result_A, result_D].
         getprop r ''criticalQuotes'' = JArr (flat (getprop r ''criticalQuotes''))"
    by (simp add: result_A_def result_D_def lookup_def)
  have e: "take 5 (first_occurrences (concat (map
             (\<lambda>r. flat (getprop (getprop r ''highlights'') ''good''))
             [result_A, result_D]))) = [JStr ''a'', JStr ''b'', JStr ''c'']"
    by (simp add: result_A_def result_D_def lookup_def same_value_def)
  note t = merged_highlights_and_quotes [OF g b q]
  from t result_ok_A_D obtain m where m: "mergeChunkResults [result_A, result_D] = Inr m"
    by blast
  with t have "getprop (getprop m ''highlights'') ''good'' =
      JArr (take 5 (first_occurrences (concat (map
             (\<lambda>r. flat (getprop (getprop r ''highlights'') ''good''))
             [result_A, result_D]))))"
    by blast
  with m e have c: "\<exists>m. mergeChunkResults [result_A, result_D] = Inr m
          \<and> getprop (getprop m ''highlights'') ''good'' =
              JArr [JStr ''a'', JStr ''b'', JStr ''c'']"
    by simp
  have ga: "getprop (getprop result_A ''highlights'') ''good'' = JArr [JStr ''a'', JStr ''b'']"
    by (simp add: result_A_def lookup_def)
  have gd: "getprop (getprop result_D ''highlights'') ''good'' = JArr [JStr ''b'', JStr ''c'']"
    by (simp add: result_D_def lookup_def)
  show ?thesis
    by (intro conjI result_ok_A_D ga gd c)
qed

end
